theory Spec2Isabelle
  imports Main "HOL-Library.Word"
begin

section \<open>JavaScript strings\<close>

text \<open>
  A JavaScript string is a sequence of 16-bit UTF-16 code units. The regular expressions
  of the source carry no \<^verbatim>\<open>u\<close> flag, so a character class matches one code unit:
  the class \<^verbatim>\<open>[\<close>U+2705 U+2699 U+FE0F U+1F4CB\<^verbatim>\<open>]\<close> of the source holds the five
  units 0x2705, 0x2699, 0xFE0F, 0xD83D and 0xDCCB.
\<close>

type_synonym codeunit = "16 word"
type_synonym jsstring = "codeunit list"

definition lit :: "string \<Rightarrow> jsstring" where
  "lit s = map of_char s"

text \<open>The white space of \<^verbatim>\<open>\s\<close> and of \<^verbatim>\<open>String.prototype.trim\<close>
  (WhiteSpace and LineTerminator of ECMAScript).\<close>

definition isWhiteSpace :: "codeunit \<Rightarrow> bool" where
  "isWhiteSpace c \<longleftrightarrow>
     c = 0x09 \<or> c = 0x0A \<or> c = 0x0B \<or> c = 0x0C \<or> c = 0x0D \<or> c = 0x20 \<or> c = 0xA0 \<or>
     c = 0x1680 \<or> (0x2000 \<le> c \<and> c \<le> 0x200A) \<or> c = 0x2028 \<or> c = 0x2029 \<or>
     c = 0x202F \<or> c = 0x205F \<or> c = 0x3000 \<or> c = 0xFEFF"

text \<open>The dot of a regular expression without the \<^verbatim>\<open>s\<close> flag: anything but a line terminator.\<close>

definition isDot :: "codeunit \<Rightarrow> bool" where
  "isDot c \<longleftrightarrow> \<not> (c = 0x0A \<or> c = 0x0D \<or> c = 0x2028 \<or> c = 0x2029)"

definition trim :: "jsstring \<Rightarrow> jsstring" where
  "trim s = rev (dropWhile isWhiteSpace (rev (dropWhile isWhiteSpace s)))"

text \<open>\<^verbatim>\<open>s.split(sep)\<close> for a separator of one unit: the empty string splits into one
  empty piece.\<close>

fun split :: "codeunit \<Rightarrow> jsstring \<Rightarrow> jsstring list" where
  "split sep [] = [[]]"
| "split sep (c # s) =
     (if c = sep then [] # split sep s
      else (case split sep s of l # ls \<Rightarrow> (c # l) # ls | [] \<Rightarrow> [[c]]))"

text \<open>\<^verbatim>\<open>pieces.join(sep)\<close>: the empty array joins to the empty string.\<close>

fun join :: "jsstring \<Rightarrow> jsstring list \<Rightarrow> jsstring" where
  "join sep [] = []"
| "join sep [l] = l"
| "join sep (l # ls) = l @ sep @ join sep ls"

definition startsWith :: "jsstring \<Rightarrow> jsstring \<Rightarrow> bool" where
  "startsWith s p \<longleftrightarrow> take (length p) s = p"

text \<open>\<^verbatim>\<open>s.includes(p)\<close>: \<open>p\<close> occurs in \<open>s\<close> as a contiguous substring.\<close>

fun includes_js :: "jsstring \<Rightarrow> jsstring \<Rightarrow> bool" where
  "includes_js [] p = (p = [])"
| "includes_js (c # s) p = (startsWith (c # s) p \<or> includes_js s p)"

subsection \<open>Regular expressions anchored at the start\<close>

text \<open>
  The patterns of the source are sequences of single-unit classes, each taken once, optionally
  (\<^verbatim>\<open>?\<close>), any number of times (\<^verbatim>\<open>*\<close>) or at least once (\<^verbatim>\<open>+\<close>), all greedy.
  \<open>rx_match\<close> returns what is left of the subject after each way of matching a prefix, in the
  backtracking order of the engine: the first element is the match the engine reports.
\<close>

datatype atom =
    One "codeunit \<Rightarrow> bool"
  | Opt "codeunit \<Rightarrow> bool"
  | Star "codeunit \<Rightarrow> bool"
  | Plus "codeunit \<Rightarrow> bool"

fun rx_match :: "atom list \<Rightarrow> jsstring \<Rightarrow> jsstring list" where
  "rx_match [] s = [s]"
| "rx_match (One p # as) [] = []"
| "rx_match (One p # as) (c # s) = (if p c then rx_match as s else [])"
| "rx_match (Opt p # as) [] = rx_match as []"
| "rx_match (Opt p # as) (c # s) =
     (if p c then rx_match as s else []) @ rx_match as (c # s)"
| "rx_match (Star p # as) [] = rx_match as []"
| "rx_match (Star p # as) (c # s) =
     (if p c then rx_match (Star p # as) s else []) @ rx_match as (c # s)"
| "rx_match (Plus p # as) [] = []"
| "rx_match (Plus p # as) (c # s) = (if p c then rx_match (Star p # as) s else [])"

text \<open>\<^verbatim>\<open>s.match(/^.../)\<close> used as a condition: is there a match at all.\<close>

definition rx_test :: "atom list \<Rightarrow> jsstring \<Rightarrow> bool" where
  "rx_test r s \<longleftrightarrow> rx_match r s \<noteq> []"

text \<open>\<^verbatim>\<open>s.replace(/^.../, '')\<close>: the reported match is cut off, no match leaves \<open>s\<close>.\<close>

definition rx_strip :: "atom list \<Rightarrow> jsstring \<Rightarrow> jsstring" where
  "rx_strip r s = (case rx_match r s of [] \<Rightarrow> s | rest # _ \<Rightarrow> rest)"

definition bullet :: "codeunit \<Rightarrow> bool" where
  "bullet c \<longleftrightarrow> c = 0x2D \<or> c = 0x2A \<or> c = 0x2022"

definition statusGlyphUnit :: "codeunit \<Rightarrow> bool" where
  "statusGlyphUnit c \<longleftrightarrow> c = 0x2705 \<or> c = 0x2699 \<or> c = 0xFE0F \<or> c = 0xD83D \<or> c = 0xDCCB"

definition is_unit :: "codeunit \<Rightarrow> codeunit \<Rightarrow> bool" where
  "is_unit a c \<longleftrightarrow> c = a"

definition blankOrX :: "codeunit \<Rightarrow> bool" where
  "blankOrX c \<longleftrightarrow> c = 0x20 \<or> c = 0x78"

text \<open>\<^verbatim>\<open>/^[-*\<close>U+2022\<^verbatim>\<open>]\s+[\<close>glyphs\<^verbatim>\<open>]?\s*(.+)/\<close>\<close>

definition rx_bulletWithGlyph :: "atom list" where
  "rx_bulletWithGlyph = [One bullet, Plus isWhiteSpace, Opt statusGlyphUnit, Star isWhiteSpace, Plus isDot]"


text \<open>\<^verbatim>\<open>/^\[[ x]\]\s+(.+)/\<close>\<close>

definition rx_checkbox :: "atom list" where
  "rx_checkbox = [One (is_unit 0x5B), One blankOrX, One (is_unit 0x5D), Plus isWhiteSpace, Plus isDot]"

text \<open>\<^verbatim>\<open>/^[\<close>glyphs\<^verbatim>\<open>]\s*/\<close>\<close>

definition rx_glyphPrefix :: "atom list" where
  "rx_glyphPrefix = [One statusGlyphUnit, Star isWhiteSpace]"

section \<open>Tasks\<close>

text \<open>\<^verbatim>\<open>TodoTask\<close> of \<^verbatim>\<open>types/index.ts\<close>. The status is declared as one of three string
  literals, but the hook copies it unchecked from its JSON payload: at run time it is a string.\<close>

record TodoTask =
  content :: jsstring
  status :: jsstring
  activeForm :: jsstring

section \<open>The description reconciler of \<^verbatim>\<open>SimpleAutoSyncService\<close>\<close>

definition glyph_completed :: jsstring where
  "glyph_completed = [0x2705]"

definition glyph_in_progress :: jsstring where
  "glyph_in_progress = [0x2699, 0xFE0F]"

definition glyph_pending :: jsstring where
  "glyph_pending = [0xD83D, 0xDCCB]"

definition getStatusIcon :: "jsstring \<Rightarrow> jsstring" where
  "getStatusIcon st =
     (if st = lit ''completed'' then glyph_completed
      else if st = lit ''in_progress'' then glyph_in_progress
      else glyph_pending)"

text \<open>The line pushed for one task: \<^verbatim>\<open>`- ${statusIcon} ${cleanContent}`\<close>.\<close>

definition renderTask :: "TodoTask \<Rightarrow> jsstring" where
  "renderTask task =
     (let statusIcon = getStatusIcon (status task);
          cleanContent = rx_strip rx_glyphPrefix (content task)
      in lit ''- '' @ statusIcon @ lit '' '' @ cleanContent)"

definition isTaskLine :: "jsstring \<Rightarrow> bool" where
  "isTaskLine trimmed \<longleftrightarrow> rx_test rx_bulletWithGlyph trimmed \<or> rx_test rx_checkbox trimmed"

definition endsTaskSection :: "jsstring \<Rightarrow> bool" where
  "endsTaskSection trimmed \<longleftrightarrow>
     trimmed = [] \<or> startsWith trimmed (lit ''#'') \<or> startsWith trimmed (lit ''---'')"

text \<open>The \<^verbatim>\<open>for (const line of lines)\<close> loop, with its three mutable variables
  \<open>updatedLines\<close>, \<open>inTaskSection\<close> and \<open>taskSectionFound\<close>; it returns the first and the last.\<close>

fun generateUpdatedDescription_loop ::
  "TodoTask list \<Rightarrow> jsstring list \<Rightarrow> jsstring list \<Rightarrow> bool \<Rightarrow> bool \<Rightarrow> jsstring list \<times> bool" where
  "generateUpdatedDescription_loop tasks [] updatedLines inTaskSection taskSectionFound =
     (updatedLines, taskSectionFound)"
| "generateUpdatedDescription_loop tasks (line # lines) updatedLines inTaskSection taskSectionFound =
     (let trimmed = trim line in
      if isTaskLine trimmed then
        generateUpdatedDescription_loop tasks lines updatedLines True
          (if \<not> inTaskSection then True else taskSectionFound)
      else if inTaskSection \<and> endsTaskSection trimmed then
        generateUpdatedDescription_loop tasks lines
          (updatedLines @ map renderTask tasks @ [line]) False taskSectionFound
      else
        generateUpdatedDescription_loop tasks lines (updatedLines @ [line])
          inTaskSection taskSectionFound)"

definition generateUpdatedDescription :: "jsstring \<Rightarrow> TodoTask list \<Rightarrow> jsstring" where
  "generateUpdatedDescription originalDescription tasks =
     (let lines = split 0x0A originalDescription;
          (updatedLines, taskSectionFound) =
             generateUpdatedDescription_loop tasks lines [] False False
      in if \<not> taskSectionFound \<and> length tasks > 0
         then join [0x0A] (updatedLines @ [[], lit ''## Current Tasks''] @ map renderTask tasks)
         else join [0x0A] updatedLines)"

section \<open>The status mapper of \<^verbatim>\<open>TodoTrelloSync\<close>\<close>

text \<open>\<^verbatim>\<open>TrelloConfig\<close> of \<^verbatim>\<open>types/index.ts\<close>; an optional field is an \<open>option\<close>.\<close>

record ListIds =
  list_todo :: "jsstring option"
  list_inProgress :: "jsstring option"
  list_review :: "jsstring option"
  list_done :: "jsstring option"

record TrelloConfig =
  apiKey :: jsstring
  token :: jsstring
  boardId :: jsstring
  listIds :: "ListIds option"

text \<open>\<^verbatim>\<open>listIds?.todo\<close> and its siblings: \<open>undefined\<close> when \<open>listIds\<close> is.\<close>

definition optField :: "('a \<Rightarrow> 'b option) \<Rightarrow> 'a option \<Rightarrow> 'b option" where
  "optField f r = (case r of None \<Rightarrow> None | Some x \<Rightarrow> f x)"

definition getTargetListId :: "TrelloConfig \<Rightarrow> jsstring \<Rightarrow> jsstring option" where
  "getTargetListId config st =
     (if st = lit ''pending'' then optField list_todo (listIds config)
      else if st = lit ''in_progress'' then optField list_inProgress (listIds config)
      else if st = lit ''completed'' then optField list_done (listIds config)
      else optField list_todo (listIds config))"

section \<open>The session store (\<^verbatim>\<open>utils/session.ts\<close>)\<close>

record SessionState =
  currentCardId :: "jsstring option"
  currentCardName :: "jsstring option"
  linkedTasks :: "TodoTask list option"
  createdAt :: "jsstring option"
  lastActivity :: "jsstring option"

text \<open>The object \<^verbatim>\<open>{}\<close>.\<close>

definition emptySession :: SessionState where
  "emptySession = \<lparr>currentCardId = None, currentCardName = None, linkedTasks = None,
     createdAt = None, lastActivity = None\<rparr>"

text \<open>
  What is on disk at \<^verbatim>\<open>SESSION_FILE\<close>: nothing, a file that cannot be read or parsed, or
  the JSON of a session object (\<^verbatim>\<open>JSON.stringify\<close> leaves out the fields that are
  \<open>undefined\<close>, so the stored object is the record).
\<close>

datatype session_file = Absent | Unreadable | Stored SessionState

text \<open>
  The part of the machine the session functions touch: the file, whether
  \<^verbatim>\<open>writeFileSync\<close> succeeds, and what \<^verbatim>\<open>new Date().toISOString()\<close> returns.
\<close>

record disk =
  sessionFile :: session_file
  writable :: bool
  clock :: jsstring

text \<open>A string used as a condition: \<open>undefined\<close> and the empty string are falsy.\<close>

definition truthy :: "jsstring option \<Rightarrow> bool" where
  "truthy s = (case s of None \<Rightarrow> False | Some x \<Rightarrow> x \<noteq> [])"

definition loadSession :: "'a disk_scheme \<Rightarrow> SessionState" where
  "loadSession d =
     (case sessionFile d of
        Absent \<Rightarrow> emptySession
      | Unreadable \<Rightarrow> emptySession
      | Stored s \<Rightarrow> s)"

text \<open>A failing write is caught and logged: the file stays as it was.\<close>

definition saveSession :: "SessionState \<Rightarrow> 'a disk_scheme \<Rightarrow> 'a disk_scheme" where
  "saveSession state d =
     (let sessionData = state\<lparr>lastActivity := Some (clock d)\<rparr>
      in if writable d then d\<lparr>sessionFile := Stored sessionData\<rparr> else d)"

definition clearSession :: "'a disk_scheme \<Rightarrow> 'a disk_scheme" where
  "clearSession d =
     (if sessionFile d \<noteq> Absent then
        (if writable d then d\<lparr>sessionFile := Stored emptySession\<rparr> else d)
      else d)"

definition setActiveCard ::
  "jsstring \<Rightarrow> jsstring \<Rightarrow> TodoTask list option \<Rightarrow> 'a disk_scheme \<Rightarrow> 'a disk_scheme" where
  "setActiveCard cardId cardName tasks d =
     (let session = loadSession d;
          session = session\<lparr>currentCardId := Some cardId\<rparr>;
          session = session\<lparr>currentCardName := Some cardName\<rparr>;
          session = session\<lparr>linkedTasks := tasks\<rparr>;
          session = session\<lparr>createdAt :=
            (if truthy (createdAt session) then createdAt session else Some (clock d))\<rparr>
      in saveSession session d)"

definition getActiveCard ::
  "'a disk_scheme \<Rightarrow> jsstring option \<times> jsstring option \<times> TodoTask list option" where
  "getActiveCard d =
     (let session = loadSession d
      in (currentCardId session, currentCardName session, linkedTasks session))"

definition updateSessionTasks :: "TodoTask list \<Rightarrow> 'a disk_scheme \<Rightarrow> 'a disk_scheme" where
  "updateSessionTasks tasks d =
     (let session = loadSession d
      in if truthy (currentCardId session)
         then saveSession (session\<lparr>linkedTasks := Some tasks\<rparr>) d
         else d)"

text \<open>A stored session that tracks tasks has an active card: its card id is one that the
  program takes for a card id (\<^verbatim>\<open>if (session.currentCardId)\<close>, \<^verbatim>\<open>if (!cardId)\<close>), neither
  \<open>undefined\<close> nor the empty string.\<close>

definition sessionInvariant :: "'a disk_scheme \<Rightarrow> bool" where
  "sessionInvariant d =
     (case sessionFile d of
        Stored s \<Rightarrow> linkedTasks s \<noteq> None \<longrightarrow> truthy (currentCardId s)
      | _ \<Rightarrow> True)"

section \<open>Operations that may throw\<close>

text \<open>What a \<^verbatim>\<open>catch\<close> clause receives: an \<^verbatim>\<open>Error\<close> with its message, or some other value,
  given by what \<^verbatim>\<open>String\<close> makes of it.\<close>

datatype thrown = Error jsstring | NonError jsstring

text \<open>\<^verbatim>\<open>error instanceof Error ? error.message : 'Unknown error'\<close>\<close>

definition errorMessage :: "thrown \<Rightarrow> jsstring" where
  "errorMessage e = (case e of Error m \<Rightarrow> m | NonError s \<Rightarrow> lit ''Unknown error'')"

text \<open>
  An operation runs on a state, changes it, and either returns (\<open>Inr\<close>) or throws (\<open>Inl\<close>).
  An \<^verbatim>\<open>await\<close> of the source is a sequencing step: the source never runs two calls at once.
\<close>

type_synonym ('a, 's) io = "'s \<Rightarrow> (thrown + 'a) \<times> 's"

definition succeed :: "'a \<Rightarrow> ('a, 's) io" where
  "succeed x = (\<lambda>w. (Inr x, w))"

definition throw :: "thrown \<Rightarrow> ('a, 's) io" where
  "throw e = (\<lambda>w. (Inl e, w))"

definition andThen :: "('a, 's) io \<Rightarrow> ('a \<Rightarrow> ('b, 's) io) \<Rightarrow> ('b, 's) io" where
  "andThen m f = (\<lambda>w. case m w of (Inl e, w') \<Rightarrow> (Inl e, w') | (Inr x, w') \<Rightarrow> f x w')"

definition tryCatch :: "('a, 's) io \<Rightarrow> (thrown \<Rightarrow> ('a, 's) io) \<Rightarrow> ('a, 's) io" where
  "tryCatch m h = (\<lambda>w. case m w of (Inl e, w') \<Rightarrow> h e w' | (Inr x, w') \<Rightarrow> (Inr x, w'))"

definition reading :: "('s \<Rightarrow> 'a) \<Rightarrow> ('a, 's) io" where
  "reading f = (\<lambda>w. (Inr (f w), w))"

definition changing :: "('s \<Rightarrow> 's) \<Rightarrow> (unit, 's) io" where
  "changing f = (\<lambda>w. (Inr (), f w))"

text \<open>\<^verbatim>\<open>for (const x of xs) { await f(x) }\<close>: a throw leaves the loop.\<close>

fun forEach :: "'a list \<Rightarrow> ('a \<Rightarrow> (unit, 's) io) \<Rightarrow> (unit, 's) io" where
  "forEach [] f = succeed ()"
| "forEach (x # xs) f = andThen (f x) (\<lambda>_. forEach xs f)"

section \<open>The board and its client\<close>

text \<open>The fields of \<^verbatim>\<open>types/index.ts\<close> that the code reads.\<close>

record TrelloCard =
  card_id :: jsstring
  card_name :: jsstring
  card_desc :: "jsstring option"
  idList :: jsstring
  url :: jsstring
  dateLastActivity :: jsstring

record TrelloList =
  tlist_id :: jsstring
  tlist_name :: jsstring

record TrelloLabel =
  label_id :: jsstring
  label_name :: jsstring
  label_color :: jsstring

text \<open>A checklist as the code reads it: \<open>id\<close>, \<open>name\<close>, \<open>state\<close> of an item, \<open>checkItems\<close> of a
  checklist (possibly missing: \<^verbatim>\<open>checklist.checkItems || []\<close>).\<close>

record CheckItem =
  item_id :: jsstring
  item_name :: jsstring
  item_state :: jsstring

record Checklist =
  checklist_id :: jsstring
  checklist_name :: jsstring
  checkItems :: "CheckItem list option"

text \<open>The remote calls of the board client, with the arguments sent.\<close>

datatype call =
    Connect
  | GetBoard
  | GetLists
  | GetCard jsstring
  | CreateCard jsstring jsstring jsstring
  | UpdateCard jsstring "jsstring option" "jsstring option"
  | MoveCard jsstring jsstring
  | AddComment jsstring jsstring
  | SearchCards jsstring
  | GetBoardLabels
  | CreateLabel jsstring jsstring
  | AddLabelToCard jsstring jsstring
  | GetCardChecklists jsstring
  | CreateChecklist jsstring jsstring "jsstring list"
  | UpdateChecklistItem jsstring jsstring bool

text \<open>The variables of \<^verbatim>\<open>process.env\<close> that \<^verbatim>\<open>utils/config.ts\<close> reads.\<close>

record environment =
  TRELLO_API_KEY :: "jsstring option"
  TRELLO_TOKEN :: "jsstring option"
  TRELLO_BOARD_ID :: "jsstring option"
  TRELLO_LIST_TODO :: "jsstring option"
  TRELLO_LIST_IN_PROGRESS :: "jsstring option"
  TRELLO_LIST_REVIEW :: "jsstring option"
  TRELLO_LIST_DONE :: "jsstring option"

text \<open>
  The world an operation runs in: the local disk, the environment, the state of the remote
  board, and the course of the remote calls. \<open>calls\<close> is the log of the calls issued so far,
  each with what it threw (\<open>None\<close> when it returned); \<open>faultOf n c\<close> tells whether call \<open>c\<close>,
  issued as call number \<open>n\<close>, fails for a reason outside the board (network, authentication,
  rate limit) and with what; \<open>newId n k\<close> is the identifier the
  service gives to the \<open>k\<close>-th object created by call number \<open>n\<close>; \<open>searchResults\<close> is what the
  search of the service answers to a query; \<open>millis\<close> is what \<^verbatim>\<open>Date.now()\<close> returns and
  \<open>localeString d\<close> what \<^verbatim>\<open>new Date(d).toLocaleString()\<close> returns.
\<close>

record world = disk +
  env :: environment
  lists :: "TrelloList list"
  cards :: "TrelloCard list"
  checklistsOf :: "jsstring \<Rightarrow> Checklist list"
  comments :: "(jsstring \<times> jsstring) list"
  labels :: "TrelloLabel list"
  cardLabels :: "(jsstring \<times> jsstring) list"
  searchResults :: "jsstring \<Rightarrow> TrelloCard list"
  newId :: "nat \<Rightarrow> nat \<Rightarrow> jsstring"
  millis :: nat
  localeString :: "jsstring \<Rightarrow> jsstring"
  faultOf :: "nat \<Rightarrow> call \<Rightarrow> thrown option"
  calls :: "(call \<times> thrown option) list"

text \<open>
  One request. It fails if the course of the calls says so, and otherwise the board answers:
  with a failure, or with a value and its new state. The call is logged with its outcome.
\<close>

definition request :: "call \<Rightarrow> (world \<Rightarrow> thrown + 'a \<times> world) \<Rightarrow> ('a, world) io" where
  "request c answer = (\<lambda>w.
     case (case faultOf w (length (calls w)) c of Some e \<Rightarrow> Inl e | None \<Rightarrow> answer w) of
       Inl e \<Rightarrow> (Inl e, w\<lparr>calls := calls w @ [(c, Some e)]\<rparr>)
     | Inr (x, w') \<Rightarrow> (Inr x, w'\<lparr>calls := calls w @ [(c, None)]\<rparr>))"

text \<open>\<^verbatim>\<open>makeRequest\<close> throws \<^verbatim>\<open>new Error(`Trello API error: ${status} ${statusText}`)\<close> on a
  response that is not ok; for an object the board does not have that is a 404.\<close>

definition notFound :: thrown where
  "notFound = Error (lit ''Trello API error: 404 Not Found'')"

definition findCard :: "jsstring \<Rightarrow> world \<Rightarrow> TrelloCard option" where
  "findCard cardId w = find (\<lambda>c. card_id c = cardId) (cards w)"

subsection \<open>Configuration (\<^verbatim>\<open>utils/config.ts\<close>)\<close>

definition missingVariables :: "environment \<Rightarrow> jsstring list" where
  "missingVariables e =
     map fst (filter (\<lambda>(key, v). \<not> truthy v)
       [(lit ''TRELLO_API_KEY'', TRELLO_API_KEY e),
        (lit ''TRELLO_TOKEN'', TRELLO_TOKEN e),
        (lit ''TRELLO_BOARD_ID'', TRELLO_BOARD_ID e)])"

text \<open>\<^verbatim>\<open>s || ''\<close>\<close>

definition orEmpty :: "jsstring option \<Rightarrow> jsstring" where
  "orEmpty s = (case s of None \<Rightarrow> [] | Some x \<Rightarrow> x)"

definition getConfig :: "(TrelloConfig, world) io" where
  "getConfig = (\<lambda>w.
     let missing = missingVariables (env w)
     in if length missing > 0 then
          (Inl (Error (lit ''Missing required environment variables: '' @ join (lit '', '') missing
                 @ [0x0A] @ lit ''Please copy .env.example to .env and fill in your Trello credentials.'')), w)
        else
          (Inr \<lparr>apiKey = orEmpty (TRELLO_API_KEY (env w)),
                token = orEmpty (TRELLO_TOKEN (env w)),
                boardId = orEmpty (TRELLO_BOARD_ID (env w)),
                listIds = Some \<lparr>list_todo = TRELLO_LIST_TODO (env w),
                                list_inProgress = TRELLO_LIST_IN_PROGRESS (env w),
                                list_review = TRELLO_LIST_REVIEW (env w),
                                list_done = TRELLO_LIST_DONE (env w)\<rparr>\<rparr>, w))"

subsection \<open>The client (\<^verbatim>\<open>services/trello-client.ts\<close>)\<close>

text \<open>
  \<^verbatim>\<open>String.prototype.toLowerCase\<close>, unit by unit. The units whose lower case lies outside
  ASCII are kept as they are: the source only looks for ASCII text in a lower-cased string
  or deletes every unit outside \<^verbatim>\<open>[a-z0-9\s]\<close> from it. Apart from the Latin capitals,
  U+212A (Kelvin sign) and U+0130 have a lower case with an ASCII unit.
\<close>

definition toLowerCaseUnit :: "codeunit \<Rightarrow> jsstring" where
  "toLowerCaseUnit c =
     (if 0x41 \<le> c \<and> c \<le> 0x5A then [c + 0x20]
      else if c = 0x212A then [0x6B]
      else if c = 0x130 then [0x69, 0x307]
      else [c])"

definition toLowerCase :: "jsstring \<Rightarrow> jsstring" where
  "toLowerCase s = concat (map toLowerCaseUnit s)"

record client =
  clientConfig :: TrelloConfig
  clientListIds :: ListIds

definition noListIds :: ListIds where
  "noListIds = \<lparr>list_todo = None, list_inProgress = None, list_review = None, list_done = None\<rparr>"

text \<open>\<^verbatim>\<open>new TrelloMCPClient()\<close>: the constructor reads the configuration, which may throw.\<close>

definition newClient :: "(client, world) io" where
  "newClient = andThen getConfig (\<lambda>config.
     succeed \<lparr>clientConfig = config, clientListIds = noListIds\<rparr>)"

definition getLists :: "(TrelloList list, world) io" where
  "getLists = request GetLists (\<lambda>w. Inr (lists w, w))"

datatype listRole = Todo | InProgress | Review | Done

definition nameMatches :: "(listRole \<times> jsstring list) list" where
  "nameMatches =
     [(Todo, [lit ''to do'', lit ''todo'', lit ''backlog'', lit ''planned'']),
      (InProgress, [lit ''in progress'', lit ''doing'', lit ''active'', lit ''current'']),
      (Review, [lit ''review'', lit ''testing'', lit ''qa'', lit ''pending review'']),
      (Done, [lit ''done'', lit ''completed'', lit ''finished'', lit ''closed''])]"

definition setListId :: "listRole \<Rightarrow> jsstring \<Rightarrow> ListIds \<Rightarrow> ListIds" where
  "setListId key v ids =
     (case key of
        Todo \<Rightarrow> ids\<lparr>list_todo := Some v\<rparr>
      | InProgress \<Rightarrow> ids\<lparr>list_inProgress := Some v\<rparr>
      | Review \<Rightarrow> ids\<lparr>list_review := Some v\<rparr>
      | Done \<Rightarrow> ids\<lparr>list_done := Some v\<rparr>)"

text \<open>The body of the loop over the lists: the first key with a matching pattern gets the id.\<close>

definition discoverList :: "ListIds \<Rightarrow> TrelloList \<Rightarrow> ListIds" where
  "discoverList ids l =
     (let listName = toLowerCase (tlist_name l)
      in case find (\<lambda>(key, patterns). list_ex (\<lambda>pattern. includes_js listName pattern) patterns)
                nameMatches of
           None \<Rightarrow> ids
         | Some (key, patterns) \<Rightarrow> setListId key (tlist_id l) ids)"

text \<open>A failure of the list request is caught and logged; the ids stay as they were.\<close>

definition autoDiscoverLists :: "client \<Rightarrow> (client, world) io" where
  "autoDiscoverLists cl =
     tryCatch
       (andThen getLists (\<lambda>ls.
          succeed (cl\<lparr>clientListIds := foldl discoverList (clientListIds cl) ls\<rparr>)))
       (\<lambda>error. succeed cl)"

text \<open>The \<^verbatim>\<open>catch\<close> of \<open>connect\<close> logs and throws the error again.\<close>

definition connect :: "client \<Rightarrow> (client, world) io" where
  "connect cl =
     tryCatch
       (andThen (request Connect (\<lambda>w. Inr ((), w))) (\<lambda>_. autoDiscoverLists cl))
       (\<lambda>error. throw error)"

definition getCard :: "jsstring \<Rightarrow> (TrelloCard, world) io" where
  "getCard cardId = request (GetCard cardId) (\<lambda>w.
     case findCard cardId w of
       None \<Rightarrow> Inl notFound
     | Some theCard \<Rightarrow> Inr (theCard, w))"

text \<open>\<^verbatim>\<open>if (name) updates.name = name; if (description) updates.desc = description;\<close>: an
  empty name or description is not sent.\<close>

definition sent :: "jsstring option \<Rightarrow> jsstring option" where
  "sent v = (if truthy v then v else None)"

definition applyCardUpdate :: "jsstring option \<Rightarrow> jsstring option \<Rightarrow> TrelloCard \<Rightarrow> TrelloCard" where
  "applyCardUpdate name description theCard =
     theCard\<lparr>card_name := (case name of None \<Rightarrow> card_name theCard | Some n \<Rightarrow> n),
          card_desc := (case description of None \<Rightarrow> card_desc theCard | Some d \<Rightarrow> Some d)\<rparr>"

definition replaceCard :: "TrelloCard \<Rightarrow> world \<Rightarrow> world" where
  "replaceCard theCard w =
     w\<lparr>cards := map (\<lambda>c. if card_id c = card_id theCard then theCard else c) (cards w)\<rparr>"

definition updateCard ::
  "jsstring \<Rightarrow> jsstring option \<Rightarrow> jsstring option \<Rightarrow> (TrelloCard, world) io" where
  "updateCard cardId name description =
     request (UpdateCard cardId (sent name) (sent description)) (\<lambda>w.
       case findCard cardId w of
         None \<Rightarrow> Inl notFound
       | Some theCard \<Rightarrow>
           (let updatedCard = applyCardUpdate (sent name) (sent description) theCard
            in Inr (updatedCard, replaceCard updatedCard w)))"

definition addComment :: "jsstring \<Rightarrow> jsstring \<Rightarrow> (unit, world) io" where
  "addComment cardId comment =
     request (AddComment cardId comment) (\<lambda>w.
       case findCard cardId w of
         None \<Rightarrow> Inl notFound
       | Some theCard \<Rightarrow> Inr ((), w\<lparr>comments := comments w @ [(cardId, comment)]\<rparr>))"

text \<open>
  Modelled from the spec: the checklist methods of the client (\<^verbatim>\<open>getCardChecklists\<close>,
  \<^verbatim>\<open>updateChecklistItem\<close>, \<^verbatim>\<open>createChecklist\<close>) are called by the source but their code is
  missing; the spec gives \<^verbatim>\<open>getChecklists(cardId) -> sequence of Checklist\<close>,
  \<^verbatim>\<open>updateChecklistItem(cardId, itemId, completed) -> void\<close> and
  \<^verbatim>\<open>createChecklist(cardId, name, itemNames) -> Checklist\<close>. An item is \<open>complete\<close> or
  \<open>incomplete\<close>, as the callers read it.
\<close>

definition getCardChecklists :: "jsstring \<Rightarrow> (Checklist list, world) io" where
  "getCardChecklists cardId = request (GetCardChecklists cardId) (\<lambda>w.
     case findCard cardId w of
       None \<Rightarrow> Inl notFound
     | Some theCard \<Rightarrow> Inr (checklistsOf w cardId, w))"

definition itemsOf :: "Checklist \<Rightarrow> CheckItem list" where
  "itemsOf checklist = (case checkItems checklist of None \<Rightarrow> [] | Some items \<Rightarrow> items)"

definition stateOf :: "bool \<Rightarrow> jsstring" where
  "stateOf completed = (if completed then lit ''complete'' else lit ''incomplete'')"

definition setItemState :: "jsstring \<Rightarrow> bool \<Rightarrow> Checklist \<Rightarrow> Checklist" where
  "setItemState itemId completed checklist =
     checklist\<lparr>checkItems :=
       map_option (map (\<lambda>item. if item_id item = itemId
                                then item\<lparr>item_state := stateOf completed\<rparr> else item))
         (checkItems checklist)\<rparr>"

definition hasItem :: "jsstring \<Rightarrow> Checklist list \<Rightarrow> bool" where
  "hasItem itemId checklists =
     list_ex (\<lambda>checklist. list_ex (\<lambda>item. item_id item = itemId) (itemsOf checklist)) checklists"

definition updateChecklistItem :: "jsstring \<Rightarrow> jsstring \<Rightarrow> bool \<Rightarrow> (unit, world) io" where
  "updateChecklistItem cardId itemId completed =
     request (UpdateChecklistItem cardId itemId completed) (\<lambda>w.
       if findCard cardId w \<noteq> None \<and> hasItem itemId (checklistsOf w cardId) then
         Inr ((), w\<lparr>checklistsOf := (checklistsOf w)
                     (cardId := map (setItemState itemId completed) (checklistsOf w cardId))\<rparr>)
       else Inl notFound)"

subsection \<open>More of the client\<close>











text \<open>Modelled from the spec: \<^verbatim>\<open>createChecklist(cardId, name, itemNames) -> Checklist\<close>; the
  new items are incomplete, \<open>newId n 0\<close> is the id of the checklist and \<open>newId n (k + 1)\<close>
  the id of its \<open>k\<close>-th item.\<close>

definition createChecklist ::
  "jsstring \<Rightarrow> jsstring \<Rightarrow> jsstring list \<Rightarrow> (Checklist, world) io" where
  "createChecklist cardId name itemNames =
     request (CreateChecklist cardId name itemNames) (\<lambda>w.
       case findCard cardId w of
         None \<Rightarrow> Inl notFound
       | Some theCard \<Rightarrow>
           (let n = length (calls w);
                created = \<lparr>checklist_id = newId w n 0, checklist_name = name,
                  checkItems = Some (map (\<lambda>(k, itemName).
                      \<lparr>item_id = newId w n (Suc k), item_name = itemName,
                       item_state = lit ''incomplete''\<rparr>) (enumerate 0 itemNames))\<rparr>
            in Inr (created, w\<lparr>checklistsOf := (checklistsOf w)
                       (cardId := checklistsOf w cardId @ [created])\<rparr>)))"

section \<open>\<^verbatim>\<open>TodoTrelloSync\<close> (\<^verbatim>\<open>services/todo-sync.ts\<close>)\<close>


record SyncOptions =
  createMissingLists :: "bool option"
  syncOnlyActiveSession :: "bool option"
  addLabels :: "bool option"
  includeTimestamps :: "bool option"















section \<open>\<^verbatim>\<open>SimpleAutoSyncService\<close>\<close>

subsection \<open>Checklist reconciler\<close>

definition isLowerAlnum :: "codeunit \<Rightarrow> bool" where
  "isLowerAlnum c \<longleftrightarrow> (0x61 \<le> c \<and> c \<le> 0x7A) \<or> (0x30 \<le> c \<and> c \<le> 0x39)"

text \<open>\<^verbatim>\<open>s.replace(/\s+/g, ' ')\<close>: every maximal run of white space becomes one space.\<close>

function collapseWhiteSpace :: "jsstring \<Rightarrow> jsstring" where
  "collapseWhiteSpace [] = []"
| "collapseWhiteSpace (c # s) =
     (if isWhiteSpace c then 0x20 # collapseWhiteSpace (dropWhile isWhiteSpace s)
      else c # collapseWhiteSpace s)"
  by pat_completeness auto
termination
  by (relation "measure length") (auto simp: length_dropWhile_le le_imp_less_Suc)

definition cleanTaskContent :: "jsstring \<Rightarrow> jsstring" where
  "cleanTaskContent content0 =
     collapseWhiteSpace
       (filter (\<lambda>c. isLowerAlnum c \<or> isWhiteSpace c)
          (toLowerCase (trim (rx_strip rx_glyphPrefix content0))))"

definition findMatchingChecklistItem :: "CheckItem list \<Rightarrow> jsstring \<Rightarrow> CheckItem option" where
  "findMatchingChecklistItem items todoTaskContent =
     (let cleanTodoContent = cleanTaskContent todoTaskContent in
      case find (\<lambda>item. cleanTaskContent (item_name item) = cleanTodoContent) items of
        Some match \<Rightarrow> Some match
      | None \<Rightarrow>
         (case find (\<lambda>item.
                  let cleanItemName = cleanTaskContent (item_name item)
                  in includes_js cleanItemName cleanTodoContent
                     \<or> includes_js cleanTodoContent cleanItemName) items of
            Some match \<Rightarrow> Some match
          | None \<Rightarrow>
             (let todoKeywords = filter (\<lambda>w. length w > 3) (split 0x20 cleanTodoContent)
              in find (\<lambda>item.
                    let cleanItemName = cleanTaskContent (item_name item)
                    in list_ex (\<lambda>keyword. includes_js cleanItemName keyword) todoKeywords)
                  items)))"

text \<open>The body of the inner loop, for one checklist and one task.\<close>

definition syncChecklistItem :: "jsstring \<Rightarrow> CheckItem list \<Rightarrow> TodoTask \<Rightarrow> (unit, world) io" where
  "syncChecklistItem cardId items todoTask =
     (case findMatchingChecklistItem items (content todoTask) of
        Some matchingItem \<Rightarrow>
          (let shouldBeCompleted = (status todoTask = lit ''completed'');
               isCurrentlyCompleted = (item_state matchingItem = lit ''complete'')
           in if shouldBeCompleted \<noteq> isCurrentlyCompleted
              then updateChecklistItem cardId (item_id matchingItem) shouldBeCompleted
              else succeed ())
      | None \<Rightarrow> succeed ())"

text \<open>Whatever is thrown inside is caught and logged: the method itself never throws.\<close>

definition syncChecklistsWithTodoWrite :: "jsstring \<Rightarrow> TodoTask list \<Rightarrow> (unit, world) io" where
  "syncChecklistsWithTodoWrite cardId todoWriteTasks =
     tryCatch
       (andThen (getCardChecklists cardId) (\<lambda>checklists.
          if length checklists = 0 then succeed ()
          else forEach checklists (\<lambda>checklist.
                 forEach todoWriteTasks (syncChecklistItem cardId (itemsOf checklist)))))
       (\<lambda>error. succeed ())"

subsection \<open>Sync orchestrator\<close>

text \<open>The object a sync returns; a field that the object literal leaves out is \<open>None\<close>.\<close>

record SyncOutcome =
  success :: bool
  message :: jsstring
  completed :: "nat option"
  total :: "nat option"
  error :: "jsstring option"

text \<open>A number inside a template literal: its decimal digits.\<close>

function showNumber :: "nat \<Rightarrow> jsstring" where
  "showNumber n =
     (if n < 10 then [0x30 + of_nat n]
      else showNumber (n div 10) @ [0x30 + of_nat (n mod 10)])"
  by pat_completeness auto
termination
  by (relation "measure id") auto

declare showNumber.simps [simp del]

definition countStatus :: "jsstring \<Rightarrow> TodoTask list \<Rightarrow> nat" where
  "countStatus st tasks = length (filter (\<lambda>t. status t = st) tasks)"

definition noActiveCard :: SyncOutcome where
  "noActiveCard = \<lparr>success = True, message = lit ''No active card'',
     completed = None, total = None, error = None\<rparr>"

definition synced :: "TodoTask list \<Rightarrow> nat \<Rightarrow> SyncOutcome" where
  "synced tasks n = \<lparr>success = True,
     message = lit ''Synced '' @ showNumber (length tasks) @ lit '' tasks to Trello'',
     completed = Some n, total = Some (length tasks), error = None\<rparr>"

definition syncFailed :: "thrown \<Rightarrow> SyncOutcome" where
  "syncFailed e =
     (let errorMessage = errorMessage e
      in \<lparr>success = False, message = lit ''Auto-sync failed: '' @ errorMessage,
          completed = None, total = None, error = Some errorMessage\<rparr>)"

text \<open>The milestone comment of the variant with checklists:
  U+1F3AF \<^verbatim>\<open> **Auto-sync Progress:** ${completed}/${tasks.length} tasks completed \<close>U+2728.\<close>

definition milestoneComment :: "nat \<Rightarrow> nat \<Rightarrow> jsstring" where
  "milestoneComment n len =
     [0xD83C, 0xDFAF] @ lit '' **Auto-sync Progress:** '' @ showNumber n @ lit ''/''
       @ showNumber len @ lit '' tasks completed '' @ [0x2728]"

text \<open>
  \<open>syncTasks\<close> of the variant that also reconciles the checklists. \<open>syncTasks_remote\<close> is the
  part of its \<^verbatim>\<open>try\<close> block that follows the update of the session, from
  \<^verbatim>\<open>new TrelloMCPClient()\<close> to the \<^verbatim>\<open>return\<close>.
\<close>

definition syncTasks_remote :: "jsstring \<Rightarrow> TodoTask list \<Rightarrow> (SyncOutcome, world) io" where
  "syncTasks_remote cardId tasks =
     andThen newClient (\<lambda>client.
     andThen (connect client) (\<lambda>client.
     andThen (getCard cardId) (\<lambda>theCard.
     let updatedDescription = generateUpdatedDescription (orEmpty (card_desc theCard)) tasks in
     andThen (updateCard cardId None (Some updatedDescription)) (\<lambda>_.
     andThen (syncChecklistsWithTodoWrite cardId tasks) (\<lambda>_.
     let n = countStatus (lit ''completed'') tasks in
     andThen (if n > 0 \<and> (n mod 2 = 0 \<or> n = length tasks)
              then addComment cardId (milestoneComment n (length tasks))
              else succeed ()) (\<lambda>_.
     succeed (synced tasks n)))))))"

definition syncTasks :: "TodoTask list \<Rightarrow> (SyncOutcome, world) io" where
  "syncTasks tasks =
     tryCatch
       (andThen (reading getActiveCard) (\<lambda>(cardId, cardName, linked).
          if \<not> truthy cardId then succeed noActiveCard
          else
            andThen (changing (updateSessionTasks tasks)) (\<lambda>_.
            syncTasks_remote (orEmpty cardId) tasks)))
       (\<lambda>error. succeed (syncFailed error))"

text \<open>The progress comment of the variant without checklists:
  U+1F4CA \<^verbatim>\<open> **Progress Update:** ${completed}/${tasks.length} completed\<close>, followed by
  \<^verbatim>\<open> (${inProgress} in progress)\<close> when some task is in progress.\<close>

definition progressMessage :: "nat \<Rightarrow> nat \<Rightarrow> nat \<Rightarrow> jsstring" where
  "progressMessage n len inProgress =
     (let progressMessage = [0xD83D, 0xDCCA] @ lit '' **Progress Update:** '' @ showNumber n
            @ lit ''/'' @ showNumber len @ lit '' completed''
      in if inProgress > 0
         then progressMessage @ lit '' ('' @ showNumber inProgress @ lit '' in progress)''
         else progressMessage)"

text \<open>\<open>syncTasks\<close> of the variant that reconciles the description only, split in the same way.\<close>

definition syncTasks_descriptionOnly_remote ::
  "jsstring \<Rightarrow> TodoTask list \<Rightarrow> (SyncOutcome, world) io" where
  "syncTasks_descriptionOnly_remote cardId tasks =
     andThen newClient (\<lambda>client.
     andThen (connect client) (\<lambda>client.
     andThen (getCard cardId) (\<lambda>theCard.
     let updatedDescription = generateUpdatedDescription (orEmpty (card_desc theCard)) tasks in
     andThen (updateCard cardId None (Some updatedDescription)) (\<lambda>_.
     let n = countStatus (lit ''completed'') tasks;
         inProgress = countStatus (lit ''in_progress'') tasks in
     andThen (addComment cardId (progressMessage n (length tasks) inProgress)) (\<lambda>_.
     succeed (synced tasks n))))))"

definition syncTasks_descriptionOnly :: "TodoTask list \<Rightarrow> (SyncOutcome, world) io" where
  "syncTasks_descriptionOnly tasks =
     tryCatch
       (andThen (reading getActiveCard) (\<lambda>(cardId, cardName, linked).
          if \<not> truthy cardId then succeed noActiveCard
          else
            andThen (changing (updateSessionTasks tasks)) (\<lambda>_.
            syncTasks_descriptionOnly_remote (orEmpty cardId) tasks)))
       (\<lambda>error. succeed (syncFailed error))"

section \<open>Slash commands (\<^verbatim>\<open>slash-commands.ts\<close>)\<close>

text \<open>Each command is its \<^verbatim>\<open>try\<close> block, named \<open>_try\<close>, under its \<^verbatim>\<open>catch\<close>, which turns what
  was thrown into the text of a failure.\<close>

subsection \<open>Helpers\<close>
















text \<open>The matching of \<open>syncTasksToChecklists\<close>: the raw name includes the raw content or the
  other way round.\<close>

definition findIncludedItem :: "CheckItem list \<Rightarrow> jsstring \<Rightarrow> CheckItem option" where
  "findIncludedItem items taskContent =
     find (\<lambda>item. includes_js (item_name item) taskContent
                   \<or> includes_js taskContent (item_name item)) items"

text \<open>The body of its inner loop; the first argument of the call is the id of the checklist.\<close>

definition syncTaskToChecklist :: "Checklist \<Rightarrow> TodoTask \<Rightarrow> (unit, world) io" where
  "syncTaskToChecklist cl t =
     (case findIncludedItem (itemsOf cl) (content t) of
        Some matchingItem \<Rightarrow>
          (let shouldBeCompleted = (status t = lit ''completed'');
               isCurrentlyCompleted = (item_state matchingItem = lit ''complete'')
           in if shouldBeCompleted \<noteq> isCurrentlyCompleted
              then updateChecklistItem (checklist_id cl) (item_id matchingItem) shouldBeCompleted
              else succeed ())
      | None \<Rightarrow> succeed ())"

definition syncTasksToChecklists :: "jsstring \<Rightarrow> TodoTask list \<Rightarrow> (unit, world) io" where
  "syncTasksToChecklists cardId tasks =
     tryCatch
       (andThen (getCardChecklists cardId) (\<lambda>checklists.
          if length checklists = 0 then
            (if length tasks > 0 then
               andThen (createChecklist cardId (lit ''Development Tasks'') (map content tasks))
                 (\<lambda>created. succeed ())
             else succeed ())
          else forEach checklists (\<lambda>cl. forEach tasks (syncTaskToChecklist cl))))
       (\<lambda>error. succeed ())"








subsection \<open>\<^verbatim>\<open>/trello-create\<close>\<close>




subsection \<open>\<^verbatim>\<open>/trello-pickup\<close>\<close>








subsection \<open>\<^verbatim>\<open>/trello-complete\<close>\<close>



subsection \<open>\<^verbatim>\<open>/trello-update\<close>\<close>



subsection \<open>\<^verbatim>\<open>/trello-status\<close>\<close>



section \<open>Observing a run\<close>


definition isAddComment :: "call \<Rightarrow> bool" where
  "isAddComment c = (case c of AddComment _ _ \<Rightarrow> True | _ \<Rightarrow> False)"

text \<open>The calls a run from \<open>w\<close> to \<open>w'\<close> has issued.\<close>

definition newCalls :: "world \<Rightarrow> world \<Rightarrow> (call \<times> thrown option) list" where
  "newCalls w w' = drop (length (calls w)) (calls w')"

text \<open>An operation leaves the observation \<open>g\<close> of the world as it is.\<close>

definition preserves :: "(world \<Rightarrow> 'b) \<Rightarrow> ('a, world) io \<Rightarrow> bool" where
  "preserves g m \<longleftrightarrow> (\<forall>w r w'. m w = (r, w') \<longrightarrow> g w' = g w)"

text \<open>An operation only appends to the log, and only entries that satisfy \<open>P\<close>.\<close>

definition emits :: "(call \<times> thrown option \<Rightarrow> bool) \<Rightarrow> ('a, world) io \<Rightarrow> bool" where
  "emits P m \<longleftrightarrow>
     (\<forall>w r w'. m w = (r, w') \<longrightarrow> (\<exists>es. calls w' = calls w @ es \<and> list_all P es))"

text \<open>An operation only appends to the log, and throws what a failed call of the kind \<open>P\<close>
  threw.\<close>

definition logged :: "(call \<Rightarrow> bool) \<Rightarrow> ('a, world) io \<Rightarrow> bool" where
  "logged P m \<longleftrightarrow>
     (\<forall>w r w'. m w = (r, w') \<longrightarrow>
        (\<exists>es. calls w' = calls w @ es \<and>
              (\<forall>c e. (c, Some e) \<in> set es \<longrightarrow> P c \<longrightarrow> r = Inl e)))"

text \<open>
  The public operations of the slash commands, and for each the calls whose failure no
  \<^verbatim>\<open>try\<close> inside the operation catches: \<open>getCard\<close> is retried as a search by the pickup,
  \<open>createChecklist\<close> is caught by the checklist sync of the update, and the list, board,
  label and checklist-item calls are caught wherever they are made.
\<close>

datatype operation = CreateFromPlan | Pickup | Complete | Update | Status



text \<open>
  The write that a checklist and a task call for, if any: the id of the item matched by
  \<open>matcher\<close> and its new completion state, when the state of the item differs from it.
\<close>

definition writeFor ::
  "(CheckItem list \<Rightarrow> jsstring \<Rightarrow> CheckItem option) \<Rightarrow> Checklist \<Rightarrow> TodoTask
     \<Rightarrow> (jsstring \<times> bool) option" where
  "writeFor matcher cl t =
     (case matcher (itemsOf cl) (content t) of
        None \<Rightarrow> None
      | Some item \<Rightarrow>
          if (status t = lit ''completed'') \<noteq> (item_state item = lit ''complete'')
          then Some (item_id item, status t = lit ''completed'')
          else None)"

text \<open>The writes of the checklist reconciler for the fetched checklists, in the order of
  its loops, and their effect on the checklists of the board.\<close>

definition pendingWrites :: "Checklist list \<Rightarrow> TodoTask list \<Rightarrow> (jsstring \<times> bool) list" where
  "pendingWrites checklists tasks =
     concat (map (\<lambda>cl. List.map_filter (writeFor findMatchingChecklistItem cl) tasks) checklists)"

definition applyWrites :: "(jsstring \<times> bool) list \<Rightarrow> Checklist list \<Rightarrow> Checklist list" where
  "applyWrites writes checklists =
     foldl (\<lambda>cls (itemId, b). map (setItemState itemId b) cls) checklists writes"

definition allItems :: "Checklist list \<Rightarrow> CheckItem list" where
  "allItems checklists = concat (map itemsOf checklists)"

text \<open>The state of an item after the writes: that of the last write to its id, if any.\<close>

definition finalState :: "(jsstring \<times> bool) list \<Rightarrow> CheckItem \<Rightarrow> jsstring" where
  "finalState writes item =
     (case find (\<lambda>(itemId, b). itemId = item_id item) (rev writes) of
        None \<Rightarrow> item_state item
      | Some (itemId, b) \<Rightarrow> stateOf b)"

section \<open>A small world for the examples\<close>

definition exampleEnv :: environment where
  "exampleEnv = \<lparr>TRELLO_API_KEY = Some (lit ''key''), TRELLO_TOKEN = Some (lit ''token''),
     TRELLO_BOARD_ID = Some (lit ''board''), TRELLO_LIST_TODO = None,
     TRELLO_LIST_IN_PROGRESS = None, TRELLO_LIST_REVIEW = None, TRELLO_LIST_DONE = None\<rparr>"

definition exampleCard :: TrelloCard where
  "exampleCard = \<lparr>card_id = lit ''c1'', card_name = lit ''Login'', card_desc = Some (lit ''plan''),
     idList = lit ''L2'', url = lit ''https://trello.example/c1'',
     dateLastActivity = lit ''2024-09-13T10:00:00.000Z''\<rparr>"

definition task :: "string \<Rightarrow> string \<Rightarrow> TodoTask" where
  "task c st = \<lparr>content = lit c, status = lit st, activeForm = lit ''Working''\<rparr>"

text \<open>A session bound to the example card, tracking one old task.\<close>

definition exampleSession :: SessionState where
  "exampleSession = \<lparr>currentCardId = Some (lit ''c1''), currentCardName = Some (lit ''Login''),
     linkedTasks = Some [task ''old task'' ''pending''], createdAt = Some (lit ''t0''),
     lastActivity = Some (lit ''t0'')\<rparr>"

definition checkItem :: "string \<Rightarrow> string \<Rightarrow> string \<Rightarrow> CheckItem" where
  "checkItem i n st = \<lparr>item_id = lit i, item_name = lit n, item_state = lit st\<rparr>"

definition checklist :: "string \<Rightarrow> CheckItem list \<Rightarrow> Checklist" where
  "checklist i items = \<lparr>checklist_id = lit i, checklist_name = lit ''Development Tasks'',
     checkItems = Some items\<rparr>"

text \<open>The board holds the example card with the given checklists; the three lists of the
  board have the usual names.\<close>

definition exampleWorld ::
  "session_file \<Rightarrow> Checklist list \<Rightarrow> (nat \<Rightarrow> call \<Rightarrow> thrown option) \<Rightarrow> world" where
  "exampleWorld file checklists faults =
     \<lparr>sessionFile = file, writable = True, clock = lit ''t1'',
      env = exampleEnv,
      lists = [\<lparr>tlist_id = lit ''L1'', tlist_name = lit ''To Do''\<rparr>,
               \<lparr>tlist_id = lit ''L2'', tlist_name = lit ''Doing''\<rparr>,
               \<lparr>tlist_id = lit ''L3'', tlist_name = lit ''Done''\<rparr>],
      cards = [exampleCard],
      checklistsOf = (\<lambda>cardId. if cardId = lit ''c1'' then checklists else []),
      comments = [], labels = [], cardLabels = [],
      searchResults = (\<lambda>query. []),
      newId = (\<lambda>n k. lit ''new''),
      millis = 42, localeString = (\<lambda>d. d),
      faultOf = faults, calls = []\<rparr>"

definition noFaults :: "nat \<Rightarrow> call \<Rightarrow> thrown option" where
  "noFaults n c = None"



section \<open>Properties\<close>

subsection \<open>Rules for sequencing\<close>

lemmas io_defs = succeed_def throw_def andThen_def tryCatch_def reading_def changing_def

lemma andThen_Inr:
  "andThen m f w = (Inr y, w') \<Longrightarrow> \<exists>x w1. m w = (Inr x, w1) \<and> f x w1 = (Inr y, w')"
  by (auto simp: andThen_def split: prod.splits sum.splits)

lemma tryCatch_throw [simp]: "tryCatch m throw = m"
  by (auto simp: tryCatch_def throw_def fun_eq_iff split: prod.splits sum.splits)

lemma preserves_succeed [intro!, simp]: "preserves g (succeed x)"
  by (simp add: preserves_def succeed_def)

lemma preserves_throw [intro!, simp]: "preserves g (throw e)"
  by (simp add: preserves_def throw_def)

lemma preserves_reading [intro!, simp]: "preserves g (reading f)"
  by (simp add: preserves_def reading_def)

lemma preserves_andThen [intro!]:
  "preserves g m \<Longrightarrow> (\<And>x. preserves g (f x)) \<Longrightarrow> preserves g (andThen m f)"
  unfolding preserves_def andThen_def
  by (auto split: prod.splits sum.splits)

lemma preserves_tryCatch [intro!]:
  "preserves g m \<Longrightarrow> (\<And>e. preserves g (h e)) \<Longrightarrow> preserves g (tryCatch m h)"
  unfolding preserves_def tryCatch_def
  by (auto split: prod.splits sum.splits)

lemma preserves_forEach [intro!]:
  "(\<And>x. preserves g (f x)) \<Longrightarrow> preserves g (forEach xs f)"
  by (induction xs) auto

lemma preserves_if [intro!]:
  "(b \<Longrightarrow> preserves g m) \<Longrightarrow> (\<not> b \<Longrightarrow> preserves g n) \<Longrightarrow> preserves g (if b then m else n)"
  by simp

lemma preserves_request:
  "(\<And>w x w'. answer w = Inr (x, w') \<Longrightarrow> g w' = g w) \<Longrightarrow>
   (\<And>w cs. g (w\<lparr>calls := cs\<rparr>) = g w) \<Longrightarrow> preserves g (request c answer)"
  unfolding preserves_def request_def
  by (auto split: prod.splits sum.splits option.splits)

lemma emits_succeed [intro!, simp]: "emits P (succeed x)"
  by (simp add: emits_def succeed_def)

lemma emits_throw [intro!, simp]: "emits P (throw e)"
  by (simp add: emits_def throw_def)

lemma emits_reading [intro!, simp]: "emits P (reading f)"
  by (simp add: emits_def reading_def)

lemma emits_andThen [intro!]:
  assumes "emits P m" and "\<And>x. emits P (f x)"
  shows "emits P (andThen m f)"
  unfolding emits_def
proof (intro allI impI)
  fix w r w' assume run: "andThen m f w = (r, w')"
  obtain r1 w1 where m: "m w = (r1, w1)" by (cases "m w")
  from assms(1) m obtain es1 where es1: "calls w1 = calls w @ es1" "list_all P es1"
    unfolding emits_def by blast
  show "\<exists>es. calls w' = calls w @ es \<and> list_all P es"
  proof (cases r1)
    case (Inl e)
    with run m have "w' = w1" by (simp add: andThen_def)
    with es1 show ?thesis by blast
  next
    case (Inr x)
    with run m have "f x w1 = (r, w')" by (simp add: andThen_def)
    with assms(2) obtain es2 where "calls w' = calls w1 @ es2" "list_all P es2"
      unfolding emits_def by blast
    with es1 have "calls w' = calls w @ (es1 @ es2) \<and> list_all P (es1 @ es2)" by simp
    then show ?thesis by blast
  qed
qed

lemma emits_tryCatch [intro!]:
  assumes "emits P m" and "\<And>e. emits P (h e)"
  shows "emits P (tryCatch m h)"
  unfolding emits_def
proof (intro allI impI)
  fix w r w' assume run: "tryCatch m h w = (r, w')"
  obtain r1 w1 where m: "m w = (r1, w1)" by (cases "m w")
  from assms(1) m obtain es1 where es1: "calls w1 = calls w @ es1" "list_all P es1"
    unfolding emits_def by blast
  show "\<exists>es. calls w' = calls w @ es \<and> list_all P es"
  proof (cases r1)
    case (Inr x)
    with run m have "w' = w1" by (simp add: tryCatch_def)
    with es1 show ?thesis by blast
  next
    case (Inl e)
    with run m have "h e w1 = (r, w')" by (simp add: tryCatch_def)
    with assms(2) obtain es2 where "calls w' = calls w1 @ es2" "list_all P es2"
      unfolding emits_def by blast
    with es1 have "calls w' = calls w @ (es1 @ es2) \<and> list_all P (es1 @ es2)" by simp
    then show ?thesis by blast
  qed
qed

lemma emits_forEach [intro!]:
  "(\<And>x. x \<in> set xs \<Longrightarrow> emits P (f x)) \<Longrightarrow> emits P (forEach xs f)"
  by (induction xs) auto

lemma emits_if [intro!]:
  "(b \<Longrightarrow> emits P m) \<Longrightarrow> (\<not> b \<Longrightarrow> emits P n) \<Longrightarrow> emits P (if b then m else n)"
  by simp

lemma emits_request:
  "(\<And>w x w'. answer w = Inr (x, w') \<Longrightarrow> calls w' = calls w) \<Longrightarrow>
   (\<And>out. P (c, out)) \<Longrightarrow> emits P (request c answer)"
  unfolding emits_def request_def
  by (auto split: prod.splits sum.splits option.splits)










lemma logged_tryCatch_throw: "logged P m \<Longrightarrow> logged P (tryCatch m (\<lambda>error. throw error))"
  by (simp add: tryCatch_def throw_def logged_def split: prod.splits sum.splits)

subsection \<open>The client\<close>

lemma getConfig_same: "getConfig w = (r, w') \<Longrightarrow> w' = w"
  by (auto simp: getConfig_def Let_def split: if_splits)

lemma newClient_same: "newClient w = (r, w') \<Longrightarrow> w' = w"
  by (auto simp: newClient_def andThen_def succeed_def split: prod.splits sum.splits
      dest: getConfig_same)

lemma preserves_newClient [intro!, simp]: "preserves g newClient"
  unfolding preserves_def by (auto dest: newClient_same)

lemma emits_newClient [intro!, simp]: "emits P newClient"
  unfolding emits_def by (auto dest: newClient_same)







lemma emits_getCardChecklists:
  "(\<And>out. P (GetCardChecklists cardId, out)) \<Longrightarrow> emits P (getCardChecklists cardId)"
  unfolding getCardChecklists_def by (rule emits_request) (auto split: option.splits)

lemma emits_updateChecklistItem:
  "(\<And>out. P (UpdateChecklistItem cardId itemId b, out)) \<Longrightarrow>
   emits P (updateChecklistItem cardId itemId b)"
  unfolding updateChecklistItem_def by (rule emits_request) (auto split: if_splits)

lemma emits_syncChecklists_general:
  assumes "\<And>out. P (GetCardChecklists cardId, out)"
    and "\<And>itemId b out. P (UpdateChecklistItem cardId itemId b, out)"
  shows "emits P (syncChecklistsWithTodoWrite cardId tasks)"
  unfolding syncChecklistsWithTodoWrite_def syncChecklistItem_def Let_def
  by (intro emits_tryCatch emits_andThen emits_getCardChecklists emits_if emits_forEach
        emits_succeed assms)
     (auto intro!: emits_updateChecklistItem assms split: option.splits)




lemma preserves_sessionFile_client [intro!, simp]:
  "preserves sessionFile (connect cl)"
  "preserves sessionFile (getCard cardId)"
  "preserves sessionFile (updateCard cardId name description)"
  "preserves sessionFile (addComment cardId comment)"
  "preserves sessionFile (getCardChecklists cardId)"
  "preserves sessionFile (updateChecklistItem cardId itemId b)"
  unfolding connect_def autoDiscoverLists_def getLists_def getCard_def updateCard_def
    addComment_def getCardChecklists_def updateChecklistItem_def tryCatch_throw
  by (intro preserves_andThen preserves_tryCatch preserves_request preserves_succeed;
      auto simp: replaceCard_def Let_def split: option.splits if_splits)+

lemma preserves_comments_client [intro!, simp]:
  "preserves comments (connect cl)"
  "preserves comments (getCard cardId)"
  "preserves comments (updateCard cardId name description)"
  "preserves comments (getCardChecklists cardId)"
  "preserves comments (updateChecklistItem cardId itemId b)"
  unfolding connect_def autoDiscoverLists_def getLists_def getCard_def updateCard_def
    getCardChecklists_def updateChecklistItem_def tryCatch_throw
  by (intro preserves_andThen preserves_tryCatch preserves_request preserves_succeed;
      auto simp: replaceCard_def Let_def split: option.splits if_splits)+

lemma preserves_syncChecklists:
  assumes "\<And>cardId itemId b. preserves g (updateChecklistItem cardId itemId b)"
    and "\<And>cardId. preserves g (getCardChecklists cardId)"
  shows "preserves g (syncChecklistsWithTodoWrite cardId tasks)"
  unfolding syncChecklistsWithTodoWrite_def syncChecklistItem_def Let_def
  by (intro preserves_tryCatch preserves_andThen preserves_if preserves_forEach assms
        preserves_succeed)
     (auto intro!: assms split: option.splits)


lemma syncTasks_unfold:
  assumes "truthy (currentCardId (loadSession w))"
  shows "syncTasks tasks w =
     (case syncTasks_remote (orEmpty (currentCardId (loadSession w))) tasks
             (updateSessionTasks tasks w) of
        (Inl e, w') \<Rightarrow> (Inr (syncFailed e), w')
      | (Inr r, w') \<Rightarrow> (Inr r, w'))"
    and "syncTasks_descriptionOnly tasks w =
     (case syncTasks_descriptionOnly_remote (orEmpty (currentCardId (loadSession w))) tasks
             (updateSessionTasks tasks w) of
        (Inl e, w') \<Rightarrow> (Inr (syncFailed e), w')
      | (Inr r, w') \<Rightarrow> (Inr r, w'))"
  using assms
  by (simp_all add: syncTasks_def syncTasks_descriptionOnly_def io_defs getActiveCard_def Let_def
      split: prod.splits sum.splits)

lemma calls_updateSessionTasks [simp]: "calls (updateSessionTasks ts w) = calls w"
  by (simp add: updateSessionTasks_def saveSession_def Let_def)



lemma emits_connect:
  "(\<And>out. P (Connect, out)) \<Longrightarrow> (\<And>out. P (GetLists, out)) \<Longrightarrow> emits P (connect cl)"
  unfolding connect_def autoDiscoverLists_def getLists_def tryCatch_throw
  by (intro emits_andThen emits_tryCatch emits_request emits_succeed) auto

lemma emits_getCard: "(\<And>out. P (GetCard cardId, out)) \<Longrightarrow> emits P (getCard cardId)"
  unfolding getCard_def by (rule emits_request) (auto split: option.splits)

lemma emits_updateCard:
  "(\<And>out. P (UpdateCard cardId (sent name) (sent description), out)) \<Longrightarrow>
   emits P (updateCard cardId name description)"
  unfolding updateCard_def
  by (rule emits_request) (auto simp: replaceCard_def Let_def split: option.splits)

lemma comments_updateSessionTasks [simp]: "comments (updateSessionTasks ts w) = comments w"
  by (simp add: updateSessionTasks_def saveSession_def Let_def)

lemma addComment_Inr:
  "addComment cardId comment w = (Inr x, w') \<Longrightarrow>
     comments w' = comments w @ [(cardId, comment)] \<and>
     calls w' = calls w @ [(AddComment cardId comment, None)]"
  by (auto simp: addComment_def request_def split: option.splits sum.splits prod.splits)

lemma preservesD: "preserves g m \<Longrightarrow> m w = (r, w') \<Longrightarrow> g w' = g w"
  unfolding preserves_def by blast

lemma emitsD: "emits P m \<Longrightarrow> m w = (r, w') \<Longrightarrow> \<exists>es. calls w' = calls w @ es \<and> list_all P es"
  unfolding emits_def by blast

lemma filter_none: "list_all (\<lambda>x. \<not> P x) es \<Longrightarrow> filter P es = []"
  by (induction es) auto

lemma descriptionOnly_remote_success:
  assumes run: "syncTasks_descriptionOnly_remote cardId tasks w = (Inr r, w')"
  defines "text \<equiv> progressMessage (countStatus (lit ''completed'') tasks) (length tasks)
                     (countStatus (lit ''in_progress'') tasks)"
  shows "comments w' = comments w @ [(cardId, text)] \<and>
         filter (\<lambda>x. isAddComment (fst x)) (newCalls w w') = [(AddComment cardId text, None)]"
proof -
  let ?P = "\<lambda>x. \<not> isAddComment (fst x)"
  from run obtain cl0 w1 where s1: "newClient w = (Inr cl0, w1)"
    and r1: "andThen (connect cl0) (\<lambda>client.
       andThen (getCard cardId) (\<lambda>theCard.
       andThen (updateCard cardId None
          (Some (generateUpdatedDescription (orEmpty (card_desc theCard)) tasks))) (\<lambda>_.
       andThen (addComment cardId text) (\<lambda>_.
       succeed (synced tasks (countStatus (lit ''completed'') tasks)))))) w1 = (Inr r, w')"
    unfolding syncTasks_descriptionOnly_remote_def Let_def text_def
    by (blast dest: andThen_Inr)
  from r1 obtain cl1 w2 where s2: "connect cl0 w1 = (Inr cl1, w2)"
    and r2: "andThen (getCard cardId) (\<lambda>theCard.
       andThen (updateCard cardId None
          (Some (generateUpdatedDescription (orEmpty (card_desc theCard)) tasks))) (\<lambda>_.
       andThen (addComment cardId text) (\<lambda>_.
       succeed (synced tasks (countStatus (lit ''completed'') tasks))))) w2 = (Inr r, w')"
    by (blast dest: andThen_Inr)
  from r2 obtain c w3 where s3: "getCard cardId w2 = (Inr c, w3)"
    and r3: "andThen (updateCard cardId None
          (Some (generateUpdatedDescription (orEmpty (card_desc c)) tasks))) (\<lambda>_.
       andThen (addComment cardId text) (\<lambda>_.
       succeed (synced tasks (countStatus (lit ''completed'') tasks)))) w3 = (Inr r, w')"
    by (blast dest: andThen_Inr)
  from r3 obtain c' w4 where s4: "updateCard cardId None
          (Some (generateUpdatedDescription (orEmpty (card_desc c)) tasks)) w3 = (Inr c', w4)"
    and r4: "andThen (addComment cardId text) (\<lambda>_.
       succeed (synced tasks (countStatus (lit ''completed'') tasks))) w4 = (Inr r, w')"
    by (blast dest: andThen_Inr)
  from r4 obtain u where s5: "addComment cardId text w4 = (Inr u, w')"
    by (auto simp: succeed_def dest!: andThen_Inr)
  have co: "comments w4 = comments w"
    using preservesD [where g = comments, OF preserves_newClient s1]
      preservesD [where g = comments, OF preserves_comments_client(1) s2]
      preservesD [where g = comments, OF preserves_comments_client(2) s3]
      preservesD [where g = comments, OF preserves_comments_client(3) s4] by simp
  obtain e1 e2 e3 e4 where ca: "calls w1 = calls w @ e1" "calls w2 = calls w1 @ e2"
      "calls w3 = calls w2 @ e3" "calls w4 = calls w3 @ e4"
    and no: "list_all ?P e1" "list_all ?P e2" "list_all ?P e3" "list_all ?P e4"
    using emitsD [OF emits_newClient s1, of ?P]
      emitsD [OF emits_connect s2, of ?P]
      emitsD [OF emits_getCard s3, of ?P]
      emitsD [OF emits_updateCard s4, of ?P]
    by (auto simp: isAddComment_def)
  from addComment_Inr [OF s5] co ca no show ?thesis
    by (simp add: newCalls_def filter_none isAddComment_def)
qed

lemma checklists_remote_no_comment:
  assumes run: "syncTasks_remote cardId tasks w = (r, w')"
    and quiet: "\<not> (countStatus (lit ''completed'') tasks > 0 \<and>
       (countStatus (lit ''completed'') tasks mod 2 = 0 \<or>
        countStatus (lit ''completed'') tasks = length tasks))"
  shows "comments w' = comments w \<and> filter (\<lambda>x. isAddComment (fst x)) (newCalls w w') = []"
proof -
  let ?P = "\<lambda>x. \<not> isAddComment (fst x)"
  have p: "preserves comments (syncTasks_remote cardId tasks)"
    unfolding syncTasks_remote_def Let_def using quiet
    by (intro preserves_andThen preserves_if preserves_syncChecklists) simp_all
  have e: "emits ?P (syncTasks_remote cardId tasks)"
    unfolding syncTasks_remote_def Let_def using quiet
    by (intro emits_andThen emits_if emits_syncChecklists_general emits_connect emits_getCard
          emits_updateCard emits_newClient emits_succeed)
       (simp_all add: isAddComment_def)
  from emitsD [OF e run] preservesD [OF p run] show ?thesis
    by (auto simp: newCalls_def filter_none)
qed

lemma progressMessage_1_3_1:
  "progressMessage 1 3 1 = [0xD83D, 0xDCCA] @ lit '' **Progress Update:** 1/3 completed (1 in progress)''"
  by (simp add: progressMessage_def showNumber.simps lit_def)

subsection \<open>Checklist reconciler\<close>

lemma getCardChecklists_cases:
  assumes "getCardChecklists cardId w = (r, w1)"
  shows "(\<exists>e. r = Inl e \<and> w1 = w\<lparr>calls := calls w @ [(GetCardChecklists cardId, Some e)]\<rparr>) \<or>
         (r = Inr (checklistsOf w cardId) \<and> findCard cardId w \<noteq> None \<and>
          faultOf w (length (calls w)) (GetCardChecklists cardId) = None \<and>
          w1 = w\<lparr>calls := calls w @ [(GetCardChecklists cardId, None)]\<rparr>)"
  using assms
  by (auto simp: getCardChecklists_def request_def split: option.splits sum.splits prod.splits)

lemma syncChecklistItem_writeFor:
  "syncChecklistItem cardId (itemsOf cl) t =
     (case writeFor findMatchingChecklistItem cl t of
        None \<Rightarrow> succeed ()
      | Some (itemId, b) \<Rightarrow> updateChecklistItem cardId itemId b)"
  by (auto simp: syncChecklistItem_def writeFor_def Let_def split: option.splits)

lemma syncTaskToChecklist_writeFor:
  "syncTaskToChecklist cl t =
     (case writeFor findIncludedItem cl t of
        None \<Rightarrow> succeed ()
      | Some (itemId, b) \<Rightarrow> updateChecklistItem (checklist_id cl) itemId b)"
  by (auto simp: syncTaskToChecklist_def writeFor_def Let_def split: option.splits)

lemma emits_createChecklist:
  "(\<And>out. P (CreateChecklist cardId name itemNames, out)) \<Longrightarrow>
   emits P (createChecklist cardId name itemNames)"
  unfolding createChecklist_def
  by (rule emits_request) (auto simp: Let_def split: option.splits)

subsection \<open>The run of the checklist reconciler when no call fails\<close>

lemma findMatchingChecklistItem_mem:
  "findMatchingChecklistItem items c = Some item \<Longrightarrow> item \<in> set items"
  by (auto simp: findMatchingChecklistItem_def Let_def find_Some_iff split: option.splits)

lemma writeFor_mem:
  "writeFor findMatchingChecklistItem cl t = Some (itemId, b) \<Longrightarrow>
     \<exists>item \<in> set (itemsOf cl). item_id item = itemId"
  by (auto simp: writeFor_def split: option.splits if_splits dest: findMatchingChecklistItem_mem)

lemma hasItem_iff: "hasItem itemId cls \<longleftrightarrow> (\<exists>item \<in> set (allItems cls). item_id item = itemId)"
  by (auto simp: hasItem_def allItems_def list_ex_iff)

lemma itemsOf_setItemState:
  "itemsOf (setItemState itemId b cl) =
     map (\<lambda>item. if item_id item = itemId then item\<lparr>item_state := stateOf b\<rparr> else item) (itemsOf cl)"
  by (simp add: itemsOf_def setItemState_def split: option.splits)

lemma allItems_setItemState:
  "allItems (map (setItemState itemId b) cls) =
     map (\<lambda>item. if item_id item = itemId then item\<lparr>item_state := stateOf b\<rparr> else item) (allItems cls)"
  by (induction cls) (simp_all add: allItems_def itemsOf_setItemState)

lemma item_ids_setItemState:
  "map item_id (allItems (map (setItemState itemId b) cls)) = map item_id (allItems cls)"
  by (simp add: allItems_setItemState o_def if_distrib cong: if_cong)

lemma hasItem_ids: "hasItem itemId cls \<longleftrightarrow> itemId \<in> set (map item_id (allItems cls))"
  by (auto simp: hasItem_iff)

lemma hasItem_setItemState [simp]:
  "hasItem j (map (setItemState itemId b) cls) = hasItem j cls"
  by (simp only: hasItem_ids item_ids_setItemState)

lemma updateChecklistItem_ok:
  assumes "faultOf w = noFaults" and "findCard cardId w \<noteq> None"
    and "hasItem itemId (checklistsOf w cardId)"
  shows "\<exists>w'. updateChecklistItem cardId itemId b w = (Inr (), w') \<and>
           checklistsOf w' cardId = map (setItemState itemId b) (checklistsOf w cardId) \<and>
           cards w' = cards w \<and> faultOf w' = faultOf w"
  using assms by (simp add: updateChecklistItem_def request_def findCard_def noFaults_def)

lemma applyWrites_Cons:
  "applyWrites ((itemId, b) # ws) cls = applyWrites ws (map (setItemState itemId b) cls)"
  by (simp add: applyWrites_def)

lemma applyWrites_append: "applyWrites (a @ b) cls = applyWrites b (applyWrites a cls)"
  by (simp add: applyWrites_def)

lemma hasItem_applyWrites [simp]: "hasItem j (applyWrites ws cls) = hasItem j cls"
proof (induction ws arbitrary: cls)
  case Nil
  then show ?case by (simp add: applyWrites_def)
next
  case (Cons p ws)
  obtain itemId b where "p = (itemId, b)" by (cases p)
  with Cons show ?case by (simp add: applyWrites_Cons)
qed

lemma inner_loop_ok:
  assumes "faultOf w = noFaults" and "findCard cardId w \<noteq> None"
    and "\<forall>item \<in> set (itemsOf cl). hasItem (item_id item) (checklistsOf w cardId)"
  shows "\<exists>w'. forEach ts (syncChecklistItem cardId (itemsOf cl)) w = (Inr (), w') \<and>
           checklistsOf w' cardId =
             applyWrites (List.map_filter (writeFor findMatchingChecklistItem cl) ts)
               (checklistsOf w cardId) \<and>
           cards w' = cards w \<and> faultOf w' = faultOf w"
  using assms
proof (induction ts arbitrary: w)
  case Nil
  then show ?case by (simp add: succeed_def applyWrites_def map_filter_simps)
next
  case (Cons t ts)
  show ?case
  proof (cases "writeFor findMatchingChecklistItem cl t")
    case None
    then have head: "syncChecklistItem cardId (itemsOf cl) t = succeed ()"
      by (simp add: syncChecklistItem_writeFor)
    from Cons.IH [OF Cons.prems] None show ?thesis
      by (simp add: head andThen_def succeed_def map_filter_simps)
  next
    case (Some p)
    obtain itemId b where p: "p = (itemId, b)" by (cases p)
    from Some p writeFor_mem Cons.prems(3) have "hasItem itemId (checklistsOf w cardId)"
      by blast
    from updateChecklistItem_ok [OF Cons.prems(1,2) this, of b]
    obtain w1 where w1: "updateChecklistItem cardId itemId b w = (Inr (), w1)"
      "checklistsOf w1 cardId = map (setItemState itemId b) (checklistsOf w cardId)"
      "cards w1 = cards w" "faultOf w1 = faultOf w" by blast
    have "\<exists>w'. forEach ts (syncChecklistItem cardId (itemsOf cl)) w1 = (Inr (), w') \<and>
           checklistsOf w' cardId =
             applyWrites (List.map_filter (writeFor findMatchingChecklistItem cl) ts)
               (checklistsOf w1 cardId) \<and>
           cards w' = cards w1 \<and> faultOf w' = faultOf w1"
      using Cons.prems w1 by (intro Cons.IH) (simp_all add: findCard_def)
    moreover have head: "syncChecklistItem cardId (itemsOf cl) t = updateChecklistItem cardId itemId b"
      using Some p by (simp add: syncChecklistItem_writeFor)
    ultimately show ?thesis
      using w1 Some p by (auto simp: head andThen_def map_filter_simps applyWrites_Cons)
  qed
qed

lemma outer_loop_ok:
  assumes "faultOf w = noFaults" and "findCard cardId w \<noteq> None"
    and "\<forall>cl \<in> set cls. \<forall>item \<in> set (itemsOf cl). hasItem (item_id item) (checklistsOf w cardId)"
  shows "\<exists>w'. forEach cls (\<lambda>cl. forEach ts (syncChecklistItem cardId (itemsOf cl))) w = (Inr (), w') \<and>
           checklistsOf w' cardId = applyWrites (pendingWrites cls ts) (checklistsOf w cardId) \<and>
           cards w' = cards w \<and> faultOf w' = faultOf w"
  using assms
proof (induction cls arbitrary: w)
  case Nil
  then show ?case by (simp add: succeed_def applyWrites_def pendingWrites_def)
next
  case (Cons cl cls)
  from Cons.prems have "\<forall>item \<in> set (itemsOf cl). hasItem (item_id item) (checklistsOf w cardId)"
    by simp
  from inner_loop_ok [OF Cons.prems(1,2) this, of ts]
  obtain w1 where w1: "forEach ts (syncChecklistItem cardId (itemsOf cl)) w = (Inr (), w1)"
    "checklistsOf w1 cardId =
       applyWrites (List.map_filter (writeFor findMatchingChecklistItem cl) ts) (checklistsOf w cardId)"
    "cards w1 = cards w" "faultOf w1 = faultOf w" by blast
  have "\<exists>w'. forEach cls (\<lambda>cl. forEach ts (syncChecklistItem cardId (itemsOf cl))) w1 = (Inr (), w') \<and>
           checklistsOf w' cardId = applyWrites (pendingWrites cls ts) (checklistsOf w1 cardId) \<and>
           cards w' = cards w1 \<and> faultOf w' = faultOf w1"
    using Cons.prems w1 by (intro Cons.IH) (simp_all add: findCard_def)
  with w1 show ?case
    by (auto simp: andThen_def pendingWrites_def applyWrites_append)
qed



lemma allItems_mem: "cl \<in> set cls \<Longrightarrow> item \<in> set (itemsOf cl) \<Longrightarrow> item \<in> set (allItems cls)"
  by (auto simp: allItems_def)

lemma syncChecklists_ok:
  assumes nf: "faultOf w = noFaults" and card: "findCard cardId w \<noteq> None"
    and run: "syncChecklistsWithTodoWrite cardId tasks w = (r, w')"
  shows "checklistsOf w' cardId =
           applyWrites (pendingWrites (checklistsOf w cardId) tasks) (checklistsOf w cardId)"
proof -
  let ?cls = "checklistsOf w cardId"
  let ?w1 = "w\<lparr>calls := calls w @ [(GetCardChecklists cardId, None)]\<rparr>"
  have g: "getCardChecklists cardId w = (Inr ?cls, ?w1)"
    using nf card by (auto simp: getCardChecklists_def request_def noFaults_def)
  show ?thesis
  proof (cases "length ?cls = 0")
    case True
    with run g have "w' = ?w1"
      by (auto simp: syncChecklistsWithTodoWrite_def tryCatch_def andThen_def succeed_def)
    with True show ?thesis by (simp add: pendingWrites_def applyWrites_def)
  next
    case False
    have "\<exists>w2. forEach ?cls (\<lambda>cl. forEach tasks (syncChecklistItem cardId (itemsOf cl))) ?w1
             = (Inr (), w2) \<and>
           checklistsOf w2 cardId = applyWrites (pendingWrites ?cls tasks) (checklistsOf ?w1 cardId) \<and>
           cards w2 = cards ?w1 \<and> faultOf w2 = faultOf ?w1"
      using nf card by (intro outer_loop_ok) (auto simp: findCard_def hasItem_iff allItems_mem)
    then obtain w2 where w2:
      "forEach ?cls (\<lambda>cl. forEach tasks (syncChecklistItem cardId (itemsOf cl))) ?w1 = (Inr (), w2)"
      "checklistsOf w2 cardId = applyWrites (pendingWrites ?cls tasks) ?cls" by auto
    with run g False have "w' = w2"
      by (auto simp: syncChecklistsWithTodoWrite_def tryCatch_def andThen_def succeed_def)
    with w2 show ?thesis by simp
  qed
qed

subsection \<open>The items after the writes\<close>

lemma finalState_snoc:
  "finalState (ws @ [(itemId, b)]) item =
     (if item_id item = itemId then stateOf b else finalState ws item)"
  by (auto simp: finalState_def)

lemma allItems_applyWrites:
  "allItems (applyWrites ws cls) = map (\<lambda>item. item\<lparr>item_state := finalState ws item\<rparr>) (allItems cls)"
proof (induction ws rule: rev_induct)
  case Nil
  then show ?case by (simp add: applyWrites_def finalState_def)
next
  case (snoc p ws)
  obtain itemId b where p: "p = (itemId, b)" by (cases p)
  have "applyWrites (ws @ [p]) cls = map (setItemState itemId b) (applyWrites ws cls)"
    by (simp add: applyWrites_def p)
  with snoc show ?case
    by (simp add: allItems_setItemState p finalState_snoc)
qed

lemma find_Some_mem: "find P xs = Some x \<Longrightarrow> x \<in> set xs \<and> P x"
  by (induction xs) (auto split: if_splits)

lemma finalState_cases:
  "(finalState ws item = item_state item \<and> (\<forall>b. (item_id item, b) \<notin> set ws)) \<or>
   (\<exists>b. (item_id item, b) \<in> set ws \<and> finalState ws item = stateOf b)"
proof (cases "find (\<lambda>(itemId, b). itemId = item_id item) (rev ws)")
  case None
  then have "\<forall>b. (item_id item, b) \<notin> set ws" by (auto simp: find_None_iff)
  with None show ?thesis by (simp add: finalState_def)
next
  case (Some p)
  obtain itemId b where p: "p = (itemId, b)" by (cases p)
  from Some p have "(item_id item, b) \<in> set ws" "itemId = item_id item"
    by (auto dest: find_Some_mem)
  with Some p show ?thesis by (auto simp: finalState_def)
qed

lemma stateOf_complete [simp]: "(stateOf b = lit ''complete'') = b"
  by (simp add: stateOf_def lit_def)

lemma set_map_filter:
  "set (List.map_filter f xs) = {y. \<exists>x \<in> set xs. f x = Some y}"
  by (induction xs) (auto split: option.splits)

lemma pendingWrites_mem:
  "(itemId, b) \<in> set (pendingWrites cls ts) \<Longrightarrow>
     \<exists>cl \<in> set cls. \<exists>t \<in> set ts. writeFor findMatchingChecklistItem cl t = Some (itemId, b)"
  by (auto simp: pendingWrites_def set_map_filter)

lemma pendingWrites_intro:
  "cl \<in> set cls \<Longrightarrow> t \<in> set ts \<Longrightarrow> writeFor findMatchingChecklistItem cl t = Some p \<Longrightarrow>
     p \<in> set (pendingWrites cls ts)"
  by (auto simp: pendingWrites_def set_map_filter)

lemma itemsOf_applyWrites:
  "i < length cls \<Longrightarrow>
   itemsOf (applyWrites ws cls ! i)
     = map (\<lambda>item. item\<lparr>item_state := finalState ws item\<rparr>) (itemsOf (cls ! i))"
proof (induction ws rule: rev_induct)
  case Nil
  then show ?case by (simp add: applyWrites_def finalState_def)
next
  case (snoc p ws)
  obtain itemId b where p: "p = (itemId, b)" by (cases p)
  have len: "length (applyWrites ws cls) = length cls" for ws
    by (induction ws rule: rev_induct) (auto simp: applyWrites_def)
  have "applyWrites (ws @ [p]) cls = map (setItemState itemId b) (applyWrites ws cls)"
    by (simp add: applyWrites_def p)
  with snoc len show ?case
    by (simp add: itemsOf_setItemState p finalState_snoc)
qed

lemma exact_match_first:
  assumes "item \<in> set items" "cleanTaskContent (item_name item) = cleanTaskContent c"
  shows "\<exists>e. findMatchingChecklistItem items c = Some e \<and> e \<in> set items \<and>
             cleanTaskContent (item_name e) = cleanTaskContent c"
proof -
  from assms have "find (\<lambda>item. cleanTaskContent (item_name item) = cleanTaskContent c) items
      \<noteq> None"
    unfolding find_None_iff by blast
  then obtain e where
    e: "find (\<lambda>item. cleanTaskContent (item_name item) = cleanTaskContent c) items = Some e"
    by blast
  then have "e \<in> set items" "cleanTaskContent (item_name e) = cleanTaskContent c"
    by (auto dest: find_Some_mem)
  moreover from e have "findMatchingChecklistItem items c = Some e"
    by (simp add: findMatchingChecklistItem_def)
  ultimately show ?thesis by blast
qed

lemma at_most_one:
  assumes "length (filter P xs) \<le> 1" and "x \<in> set xs" "P x" and "y \<in> set xs" "P y"
  shows "x = y"
proof -
  from assms(2,3) have "x \<in> set (filter P xs)" by simp
  with assms(1) obtain z where z: "filter P xs = [z]"
    by (cases "filter P xs") auto
  from assms(2-5) have "x \<in> set (filter P xs)" "y \<in> set (filter P xs)" by auto
  with z show ?thesis by simp
qed

lemma same_checklist:
  assumes ids: "distinct (map item_id (allItems cls))"
    and "cl \<in> set cls" "cl0 \<in> set cls" "item \<in> set (itemsOf cl)" "item \<in> set (itemsOf cl0)"
  shows "itemsOf cl0 = itemsOf cl"
proof -
  from ids have "distinct (concat (map itemsOf cls))"
    unfolding allItems_def by (simp add: distinct_map)
  then have "\<forall>ys zs. ys \<in> set (map itemsOf cls) \<and> zs \<in> set (map itemsOf cls) \<and> ys \<noteq> zs
      \<longrightarrow> set ys \<inter> set zs = {}"
    unfolding distinct_concat_iff by blast
  with assms(2-5) show ?thesis by auto
qed

text \<open>The two conditions on a checklist under which its items converge hold when every task
  either has the normalized name of exactly one item as its normalized content or is paired
  with no item at all, and tasks of the same normalized content agree on being completed.\<close>

lemma exactly_one_suffices:
  assumes one: "\<forall>t \<in> set tasks.
        length (filter (\<lambda>item. cleanTaskContent (item_name item) = cleanTaskContent (content t))
                  items) = 1
        \<or> findMatchingChecklistItem items (content t) = None"
    and same: "\<forall>t \<in> set tasks. \<forall>t' \<in> set tasks.
        cleanTaskContent (content t) = cleanTaskContent (content t') \<longrightarrow>
        (status t = lit ''completed'') = (status t' = lit ''completed'')"
  shows "(\<forall>t \<in> set tasks.
        length (filter (\<lambda>item. cleanTaskContent (item_name item) = cleanTaskContent (content t))
                  items) \<le> 1) \<and>
     (\<forall>t0 \<in> set tasks. \<forall>t \<in> set tasks. \<forall>e.
        findMatchingChecklistItem items (content t0) = Some e \<and>
        cleanTaskContent (item_name e) = cleanTaskContent (content t) \<longrightarrow>
        (status t0 = lit ''completed'') = (status t = lit ''completed''))"
proof (intro conjI ballI allI impI)
  fix t assume t: "t \<in> set tasks"
  show "length (filter (\<lambda>item. cleanTaskContent (item_name item) = cleanTaskContent (content t))
                  items) \<le> 1"
  proof (cases "findMatchingChecklistItem items (content t)")
    case None
    have "filter (\<lambda>item. cleanTaskContent (item_name item) = cleanTaskContent (content t)) items = []"
    proof (rule ccontr)
      assume "filter (\<lambda>item. cleanTaskContent (item_name item) = cleanTaskContent (content t)) items \<noteq> []"
      then obtain x where "x \<in> set items"
          "cleanTaskContent (item_name x) = cleanTaskContent (content t)"
        by (auto simp: filter_empty_conv)
      from exact_match_first [OF this] None show False by simp
    qed
    then show ?thesis by simp
  next
    case (Some e)
    with bspec [OF one t] show ?thesis by simp
  qed
next
  fix t0 t e
  assume t0: "t0 \<in> set tasks" and t: "t \<in> set tasks"
    and m: "findMatchingChecklistItem items (content t0) = Some e \<and>
            cleanTaskContent (item_name e) = cleanTaskContent (content t)"
  from m bspec [OF one t0] have "length (filter (\<lambda>item. cleanTaskContent (item_name item)
      = cleanTaskContent (content t0)) items) = 1" by simp
  then have "filter (\<lambda>item. cleanTaskContent (item_name item) = cleanTaskContent (content t0)) items
      \<noteq> []" by auto
  then obtain x where "x \<in> set items"
      "cleanTaskContent (item_name x) = cleanTaskContent (content t0)"
    by (auto simp: filter_empty_conv)
  from exact_match_first [OF this] m
  have "cleanTaskContent (item_name e) = cleanTaskContent (content t0)" by auto
  with m have "cleanTaskContent (content t0) = cleanTaskContent (content t)" by simp
  with same t0 t show "(status t0 = lit ''completed'') = (status t = lit ''completed'')" by blast
qed

subsection \<open>Failures at the boundary of an operation\<close>
















lemma calls_setActiveCard [simp]: "calls (setActiveCard a b c w) = calls w"
  by (simp add: setActiveCard_def saveSession_def Let_def)

lemma calls_clearSession [simp]: "calls (clearSession w) = calls w"
  by (simp add: clearSession_def)


















subsection \<open>Description reconciler\<close>

text \<open>
  C1 (idempotence of the description reconciler). The code does not reach a fixed point on
  a body without task lines: the first pass appends the section
  \<^verbatim>\<open>## Current Tasks\<close> with the rendered task at the end of the document; the second pass,
  given that output and the same task, takes the rendered line as a task run that no blank,
  heading or rule line closes, drops it and emits nothing in its place.
\<close>

theorem generateUpdatedDescription_second_pass_differs:
  "generateUpdatedDescription (lit ''plan'')
     [\<lparr>content = lit ''first'', status = lit ''pending'', activeForm = lit ''Doing first''\<rparr>]
     = lit ''plan'' @ [0x0A, 0x0A] @ lit ''## Current Tasks'' @ [0x0A] @ lit ''- '' @ glyph_pending @ lit '' first''
   \<and> generateUpdatedDescription
       (generateUpdatedDescription (lit ''plan'')
          [\<lparr>content = lit ''first'', status = lit ''pending'', activeForm = lit ''Doing first''\<rparr>])
       [\<lparr>content = lit ''first'', status = lit ''pending'', activeForm = lit ''Doing first''\<rparr>]
     = lit ''plan'' @ [0x0A, 0x0A] @ lit ''## Current Tasks''"
  by code_simp

text \<open>
  C3 (the rendered tasks stand where the task run ended, also at the end of the document).
  When the run of task lines reaches the end of the document the code drops the run and
  emits no task line at all: the body \<^verbatim>\<open>## Plan\<close>, newline, \<^verbatim>\<open>- old task\<close> with one
  pending task becomes \<^verbatim>\<open>## Plan\<close>, and the body \<^verbatim>\<open>- old task\<close> becomes empty.
\<close>

theorem generateUpdatedDescription_drops_run_at_end:
  "generateUpdatedDescription (lit ''## Plan'' @ [0x0A] @ lit ''- old task'')
     [\<lparr>content = lit ''new task'', status = lit ''pending'', activeForm = lit ''Doing it''\<rparr>]
     = lit ''## Plan''
   \<and> generateUpdatedDescription (lit ''- old task'')
     [\<lparr>content = lit ''new task'', status = lit ''pending'', activeForm = lit ''Doing it''\<rparr>]
     = []"
  by code_simp

subsection \<open>Status mapper\<close>

text \<open>
  C8, as the claim states it, fails: a status outside the three known ones is not refused,
  it resolves to the list of role \<open>todo\<close>.
\<close>

theorem getTargetListId_unknown_status_resolves:
  "getTargetListId
     \<lparr>apiKey = lit ''k'', token = lit ''t'', boardId = lit ''b'',
      listIds = Some \<lparr>list_todo = Some (lit ''L1''), list_inProgress = Some (lit ''L2''),
                      list_review = None, list_done = Some (lit ''L3'')\<rparr>\<rparr>
     (lit ''blocked'') = Some (lit ''L1'')"
  by (simp add: getTargetListId_def optField_def lit_def)

text \<open>
  C8, amended: the mapper sends \<open>pending\<close> to the list of role \<open>todo\<close>, \<open>in_progress\<close> to
  \<open>inProgress\<close> and \<open>completed\<close> to \<open>done\<close>; every other status value is treated as
  \<open>pending\<close>, by the mapper (list \<open>todo\<close>) and by the status glyph alike. No status is refused.
\<close>

theorem getTargetListId_total:
  "getTargetListId config (lit ''pending'') = optField list_todo (listIds config) \<and>
   getTargetListId config (lit ''in_progress'') = optField list_inProgress (listIds config) \<and>
   getTargetListId config (lit ''completed'') = optField list_done (listIds config) \<and>
   (st \<noteq> lit ''pending'' \<and> st \<noteq> lit ''in_progress'' \<and> st \<noteq> lit ''completed'' \<longrightarrow>
      getTargetListId config st = getTargetListId config (lit ''pending'') \<and>
      getStatusIcon st = getStatusIcon (lit ''pending''))"
  by (simp add: getTargetListId_def getStatusIcon_def lit_def)

theorem getTargetListId_total_witness:
  "lit ''blocked'' \<noteq> lit ''pending'' \<and> lit ''blocked'' \<noteq> lit ''in_progress'' \<and>
   lit ''blocked'' \<noteq> lit ''completed'' \<and>
   getTargetListId
     \<lparr>apiKey = lit ''k'', token = lit ''t'', boardId = lit ''b'',
      listIds = Some \<lparr>list_todo = Some (lit ''L1''), list_inProgress = Some (lit ''L2''),
                      list_review = None, list_done = Some (lit ''L3'')\<rparr>\<rparr>
     (lit ''blocked'') = Some (lit ''L1'') \<and>
   getStatusIcon (lit ''blocked'') = glyph_pending"
  using getTargetListId_total
    [of "\<lparr>apiKey = lit ''k'', token = lit ''t'', boardId = lit ''b'',
      listIds = Some \<lparr>list_todo = Some (lit ''L1''), list_inProgress = Some (lit ''L2''),
                      list_review = None, list_done = Some (lit ''L3'')\<rparr>\<rparr>" "lit ''blocked''"]
  by (simp add: optField_def getStatusIcon_def lit_def)

subsection \<open>Session store\<close>

text \<open>
  C10, as the claim states it, fails for \<open>setActiveCard\<close>, which stores the id it is given
  without looking at it: called with the empty string and a task list on a machine without
  session file, it leaves a stored session that tracks a task under an id the program takes
  for no active card.
\<close>

theorem setActiveCard_with_empty_id_breaks_invariant:
  "sessionInvariant \<lparr>sessionFile = Absent, writable = True, clock = lit ''t1''\<rparr> \<and>
   sessionFile (setActiveCard [] (lit ''Login'') (Some [task ''a'' ''pending''])
     \<lparr>sessionFile = Absent, writable = True, clock = lit ''t1''\<rparr>)
     = Stored \<lparr>currentCardId = Some [], currentCardName = Some (lit ''Login''),
         linkedTasks = Some [task ''a'' ''pending''], createdAt = Some (lit ''t1''),
         lastActivity = Some (lit ''t1'')\<rparr> \<and>
   \<not> truthy (Some []) \<and>
   \<not> sessionInvariant (setActiveCard [] (lit ''Login'') (Some [task ''a'' ''pending''])
     \<lparr>sessionFile = Absent, writable = True, clock = lit ''t1''\<rparr>)"
  by (simp add: sessionInvariant_def setActiveCard_def saveSession_def loadSession_def
      emptySession_def truthy_def Let_def)

text \<open>
  C10, amended: the invariant is that a stored session with a tracked-task list has a card
  id that is neither \<open>undefined\<close> nor empty. \<open>updateSessionTasks\<close> and \<open>clearSession\<close> keep it;
  \<open>setActiveCard\<close> keeps it exactly when the id it is given is not empty, or it is given no
  task list, or the file cannot be written. \<open>updateSessionTasks\<close> changes nothing at all
  when the session has no such card id.
\<close>

theorem session_operations_keep_invariant:
  "sessionInvariant d \<Longrightarrow>
     (sessionInvariant (setActiveCard cardId cardName tasks d)
        \<longleftrightarrow> cardId \<noteq> [] \<or> tasks = None \<or> \<not> writable d) \<and>
     sessionInvariant (updateSessionTasks ts d) \<and>
     sessionInvariant (clearSession d) \<and>
     (\<not> truthy (currentCardId (loadSession d)) \<longrightarrow> updateSessionTasks ts d = d)"
  by (auto simp: sessionInvariant_def setActiveCard_def updateSessionTasks_def clearSession_def
      saveSession_def loadSession_def Let_def truthy_def emptySession_def
      split: session_file.splits option.splits)

theorem session_operations_keep_invariant_witness:
  "sessionInvariant \<lparr>sessionFile = Stored exampleSession, writable = True, clock = lit ''t1''\<rparr> \<and>
   sessionInvariant (setActiveCard (lit ''c2'') (lit ''Other'') (Some [task ''a'' ''pending''])
     \<lparr>sessionFile = Stored exampleSession, writable = True, clock = lit ''t1''\<rparr>) \<and>
   sessionInvariant (updateSessionTasks [task ''new task'' ''pending'']
     \<lparr>sessionFile = Stored exampleSession, writable = True, clock = lit ''t1''\<rparr>) \<and>
   sessionInvariant (clearSession
     \<lparr>sessionFile = Stored exampleSession, writable = True, clock = lit ''t1''\<rparr>) \<and>
   \<not> truthy (currentCardId (loadSession \<lparr>sessionFile = Absent, writable = True, clock = lit ''t1''\<rparr>)) \<and>
   updateSessionTasks [task ''new task'' ''pending'']
     \<lparr>sessionFile = Absent, writable = True, clock = lit ''t1''\<rparr>
   = \<lparr>sessionFile = Absent, writable = True, clock = lit ''t1''\<rparr>"
proof -
  have a: "sessionInvariant \<lparr>sessionFile = Stored exampleSession, writable = True, clock = lit ''t1''\<rparr>"
    by (simp add: sessionInvariant_def exampleSession_def truthy_def lit_def)
  have b: "sessionInvariant \<lparr>sessionFile = Absent, writable = True, clock = lit ''t1''\<rparr>"
    by (simp add: sessionInvariant_def)
  have c: "\<not> truthy (currentCardId (loadSession \<lparr>sessionFile = Absent, writable = True, clock = lit ''t1''\<rparr>))"
    by (simp add: loadSession_def emptySession_def truthy_def)
  have d: "lit ''c2'' \<noteq> []" by (simp add: lit_def)
  from session_operations_keep_invariant [OF a, of "lit ''c2''" "lit ''Other''"
      "Some [task ''a'' ''pending'']" "[task ''new task'' ''pending'']"]
    session_operations_keep_invariant [OF b, of "lit ''c2''" "lit ''Other''"
      "Some [task ''a'' ''pending'']" "[task ''new task'' ''pending'']"] a c d
  show ?thesis by blast
qed

subsection \<open>Sync orchestrator\<close>

text \<open>
  C4, as the claim states it, fails in one point: without an active card the outcome carries
  no total at all (the field is left out), not the total 0.
\<close>

theorem syncTasks_without_active_card_has_no_total:
  "fst (syncTasks [task ''a'' ''completed''] (exampleWorld Absent [] noFaults)) = Inr noActiveCard \<and>
   total noActiveCard = None \<and> total noActiveCard \<noteq> Some 0"
  by code_simp

text \<open>
  C4, amended: whatever the tasks, when the session holds no card id (none, or the empty
  string) both variants of \<open>syncTasks\<close> return the success outcome with the message
  \<^verbatim>\<open>No active card\<close> and without counts, and leave the whole world as it is: no remote call
  is issued and the session file is untouched.
\<close>

theorem syncTasks_without_active_card:
  "\<not> truthy (currentCardId (loadSession w)) \<Longrightarrow>
     syncTasks tasks w = (Inr noActiveCard, w) \<and>
     syncTasks_descriptionOnly tasks w = (Inr noActiveCard, w) \<and>
     success noActiveCard \<and> message noActiveCard = lit ''No active card'' \<and>
     completed noActiveCard = None \<and> total noActiveCard = None \<and> error noActiveCard = None"
  by (simp add: syncTasks_def syncTasks_descriptionOnly_def io_defs getActiveCard_def Let_def
      noActiveCard_def)

theorem syncTasks_without_active_card_witness:
  "\<not> truthy (currentCardId (loadSession (exampleWorld Absent [] noFaults))) \<and>
   syncTasks [task ''a'' ''completed''] (exampleWorld Absent [] noFaults)
     = (Inr noActiveCard, exampleWorld Absent [] noFaults) \<and>
   syncTasks_descriptionOnly [task ''a'' ''completed''] (exampleWorld Absent [] noFaults)
     = (Inr noActiveCard, exampleWorld Absent [] noFaults)"
proof -
  have a: "\<not> truthy (currentCardId (loadSession (exampleWorld Absent [] noFaults)))"
    by (simp add: exampleWorld_def loadSession_def emptySession_def truthy_def)
  from syncTasks_without_active_card [OF a, of "[task ''a'' ''completed'']"] a
  show ?thesis by blast
qed




text \<open>
  C6, as the claim states it, fails: for three tasks, one completed, one in progress and one
  pending, the variant without checklists posts one comment, whose text is longer than the
  claimed one, and the variant with checklists succeeds without posting any comment.
\<close>

theorem syncTasks_progress_comment_text:
  "comments (snd (syncTasks_descriptionOnly
       [task ''a'' ''completed'', task ''b'' ''in_progress'', task ''c'' ''pending'']
       (exampleWorld (Stored exampleSession) [] noFaults)))
     = [(lit ''c1'', [0xD83D, 0xDCCA] @ lit '' **Progress Update:** 1/3 completed (1 in progress)'')] \<and>
   [0xD83D, 0xDCCA] @ lit '' **Progress Update:** 1/3 completed (1 in progress)''
     \<noteq> lit ''1/3 completed (1 in progress)'' \<and>
   fst (syncTasks
       [task ''a'' ''completed'', task ''b'' ''in_progress'', task ''c'' ''pending'']
       (exampleWorld (Stored exampleSession) [] noFaults))
     = Inr (synced [task ''a'' ''completed'', task ''b'' ''in_progress'', task ''c'' ''pending''] 1) \<and>
   comments (snd (syncTasks
       [task ''a'' ''completed'', task ''b'' ''in_progress'', task ''c'' ''pending'']
       (exampleWorld (Stored exampleSession) [] noFaults))) = []"
  by code_simp

text \<open>
  C6, amended: for a batch of three tasks of which one is completed and one is in progress,
  and a session with an active card, a successful \<open>syncTasks\<close> of the variant without
  checklists posts exactly one comment on the card, and its text is U+1F4CA followed by
  \<^verbatim>\<open> **Progress Update:** 1/3 completed (1 in progress)\<close>; the variant with checklists
  posts no comment for such a batch (it comments only when the number of completed tasks is
  positive and even, or all tasks are completed).
\<close>

theorem syncTasks_progress_comment_of_three:
  assumes len: "length tasks = 3"
    and done1: "countStatus (lit ''completed'') tasks = 1"
    and prog1: "countStatus (lit ''in_progress'') tasks = 1"
    and card: "truthy (currentCardId (loadSession w))"
  shows "(\<forall>r w'. syncTasks_descriptionOnly tasks w = (Inr r, w') \<and> success r \<longrightarrow>
            comments w' = comments w @
              [(orEmpty (currentCardId (loadSession w)),
                [0xD83D, 0xDCCA] @ lit '' **Progress Update:** 1/3 completed (1 in progress)'')] \<and>
            filter (\<lambda>x. isAddComment (fst x)) (newCalls w w') =
              [(AddComment (orEmpty (currentCardId (loadSession w)))
                 ([0xD83D, 0xDCCA] @ lit '' **Progress Update:** 1/3 completed (1 in progress)''), None)]) \<and>
         (\<forall>r w'. syncTasks tasks w = (Inr r, w') \<longrightarrow>
            comments w' = comments w \<and> filter (\<lambda>x. isAddComment (fst x)) (newCalls w w') = [])"
proof (intro conjI allI impI)
  fix r w'
  assume a: "syncTasks_descriptionOnly tasks w = (Inr r, w') \<and> success r"
  let ?cid = "orEmpty (currentCardId (loadSession w))"
  let ?text = "[0xD83D, 0xDCCA] @ lit '' **Progress Update:** 1/3 completed (1 in progress)''"
  from a have "syncTasks_descriptionOnly_remote ?cid tasks (updateSessionTasks tasks w) = (Inr r, w')"
    by (auto simp: syncTasks_unfold(2) [OF card] syncFailed_def Let_def
        split: prod.splits sum.splits)
  moreover have "progressMessage (countStatus (lit ''completed'') tasks) (length tasks)
      (countStatus (lit ''in_progress'') tasks) = ?text"
    unfolding len done1 prog1 by (rule progressMessage_1_3_1)
  ultimately
  have "comments w' = comments w @ [(?cid, ?text)] \<and>
        filter (\<lambda>x. isAddComment (fst x)) (newCalls w w') = [(AddComment ?cid ?text, None)]"
    using descriptionOnly_remote_success
      [of ?cid tasks "updateSessionTasks tasks w" r w']
    by (simp add: newCalls_def)
  then show "comments w' = comments w @ [(?cid, ?text)]"
    and "filter (\<lambda>x. isAddComment (fst x)) (newCalls w w') = [(AddComment ?cid ?text, None)]"
    by simp_all
next
  fix r w'
  assume a: "syncTasks tasks w = (Inr r, w')"
  let ?cid = "orEmpty (currentCardId (loadSession w))"
  obtain rb where "syncTasks_remote ?cid tasks (updateSessionTasks tasks w) = (rb, w')"
    using a by (auto simp: syncTasks_unfold(1) [OF card] split: prod.splits sum.splits)
  from checklists_remote_no_comment [OF this]
  have "comments w' = comments w \<and> filter (\<lambda>x. isAddComment (fst x)) (newCalls w w') = []"
    by (simp add: len done1 newCalls_def)
  then show "comments w' = comments w"
    and "filter (\<lambda>x. isAddComment (fst x)) (newCalls w w') = []"
    by simp_all
qed

theorem syncTasks_progress_comment_of_three_witness:
  "length [task ''a'' ''completed'', task ''b'' ''in_progress'', task ''c'' ''pending''] = 3 \<and>
   countStatus (lit ''completed'')
     [task ''a'' ''completed'', task ''b'' ''in_progress'', task ''c'' ''pending''] = 1 \<and>
   countStatus (lit ''in_progress'')
     [task ''a'' ''completed'', task ''b'' ''in_progress'', task ''c'' ''pending''] = 1 \<and>
   truthy (currentCardId (loadSession (exampleWorld (Stored exampleSession) [] noFaults))) \<and>
   success (synced [task ''a'' ''completed'', task ''b'' ''in_progress'', task ''c'' ''pending''] 1) \<and>
   fst (syncTasks_descriptionOnly
       [task ''a'' ''completed'', task ''b'' ''in_progress'', task ''c'' ''pending'']
       (exampleWorld (Stored exampleSession) [] noFaults))
     = Inr (synced [task ''a'' ''completed'', task ''b'' ''in_progress'', task ''c'' ''pending''] 1) \<and>
   comments (snd (syncTasks_descriptionOnly
       [task ''a'' ''completed'', task ''b'' ''in_progress'', task ''c'' ''pending'']
       (exampleWorld (Stored exampleSession) [] noFaults)))
     = comments (exampleWorld (Stored exampleSession) [] noFaults) @
       [(orEmpty (currentCardId (loadSession (exampleWorld (Stored exampleSession) [] noFaults))),
         [0xD83D, 0xDCCA] @ lit '' **Progress Update:** 1/3 completed (1 in progress)'')]"
proof -
  let ?w = "exampleWorld (Stored exampleSession) [] noFaults"
  let ?ts = "[task ''a'' ''completed'', task ''b'' ''in_progress'', task ''c'' ''pending'']"
  have a: "length ?ts = 3" by simp
  have b: "countStatus (lit ''completed'') ?ts = 1" by code_simp
  have c: "countStatus (lit ''in_progress'') ?ts = 1" by code_simp
  have d: "truthy (currentCardId (loadSession ?w))" by code_simp
  have e: "fst (syncTasks_descriptionOnly ?ts ?w) = Inr (synced ?ts 1)" by code_simp
  have f: "success (synced ?ts 1)" by (simp add: synced_def)
  from e have g: "syncTasks_descriptionOnly ?ts ?w
      = (Inr (synced ?ts 1), snd (syncTasks_descriptionOnly ?ts ?w))"
    by (cases "syncTasks_descriptionOnly ?ts ?w") simp
  from syncTasks_progress_comment_of_three [OF a b c d] g f
  have "comments (snd (syncTasks_descriptionOnly ?ts ?w)) = comments ?w @
       [(orEmpty (currentCardId (loadSession ?w)),
         [0xD83D, 0xDCCA] @ lit '' **Progress Update:** 1/3 completed (1 in progress)'')]"
    by blast
  with a b c d e f show ?thesis by blast
qed

subsection \<open>Checklist reconciler\<close>

text \<open>
  C9, as the claim states it, fails: the item \<open>foo\<close> is complete and is the exact match of the
  completed task \<open>foo\<close>, so that pair agrees; the pending task \<open>foo bar\<close> has no exact match,
  falls back to the containment match, finds the same item and writes it incomplete.
\<close>

theorem checklist_write_for_item_of_agreeing_pair:
  "findMatchingChecklistItem [checkItem ''i1'' ''foo'' ''complete''] (content (task ''foo'' ''completed''))
     = Some (checkItem ''i1'' ''foo'' ''complete'') \<and>
   (item_state (checkItem ''i1'' ''foo'' ''complete'') = lit ''complete'')
     = (status (task ''foo'' ''completed'') = lit ''completed'') \<and>
   (UpdateChecklistItem (lit ''c1'') (lit ''i1'') False, None)
     \<in> set (calls (snd (syncChecklistsWithTodoWrite (lit ''c1'')
          [task ''foo'' ''completed'', task ''foo bar'' ''pending'']
          (exampleWorld (Stored exampleSession)
             [checklist ''k1'' [checkItem ''i1'' ''foo'' ''complete'']] noFaults))))"
  by code_simp

text \<open>
  C9, amended: every \<open>updateChecklistItem\<close> call that the checklist reconciliation issues is
  the write of a matched task/item pair whose completion state, as fetched at the start of
  the reconciliation, differs from \<open>task.status == completed\<close>, and it writes that value.
  So a matched pair that agrees causes no call; a call for its item can still come from
  another task matched to the same item. This holds for the reconciler of the sync service
  and for the one of the slash commands (which matches by containment of the raw names and
  addresses the call to the checklist), whatever calls fail.
\<close>

theorem checklist_writes_only_for_disagreeing_pairs:
  "(syncChecklistsWithTodoWrite cardId tasks w = (r, w') \<and>
    (UpdateChecklistItem target itemId b, out) \<in> set (newCalls w w') \<longrightarrow>
      target = cardId \<and>
      (\<exists>cl \<in> set (checklistsOf w cardId). \<exists>t \<in> set tasks.
         writeFor findMatchingChecklistItem cl t = Some (itemId, b))) \<and>
   (syncTasksToChecklists cardId tasks w = (r, w') \<and>
    (UpdateChecklistItem target itemId b, out) \<in> set (newCalls w w') \<longrightarrow>
      (\<exists>cl \<in> set (checklistsOf w cardId). \<exists>t \<in> set tasks.
         target = checklist_id cl \<and> writeFor findIncludedItem cl t = Some (itemId, b)))"
proof (rule conjI; rule impI; elim conjE)
  let ?cls = "checklistsOf w cardId"
  let ?P = "\<lambda>x. \<forall>target itemId b out. x = (UpdateChecklistItem target itemId b, out) \<longrightarrow>
     target = cardId \<and> (\<exists>cl \<in> set ?cls. \<exists>t \<in> set tasks.
         writeFor findMatchingChecklistItem cl t = Some (itemId, b))"
  assume run: "syncChecklistsWithTodoWrite cardId tasks w = (r, w')"
    and mem: "(UpdateChecklistItem target itemId b, out) \<in> set (newCalls w w')"
  have loop: "emits ?P (forEach ?cls (\<lambda>checklist.
      forEach tasks (syncChecklistItem cardId (itemsOf checklist))))"
    by (intro emits_forEach, simp only: syncChecklistItem_writeFor)
       (auto split: option.splits intro!: emits_updateChecklistItem)
  obtain r1 w1 where g: "getCardChecklists cardId w = (r1, w1)"
    by (cases "getCardChecklists cardId w")
  from getCardChecklists_cases [OF g]
  have "\<exists>es. calls w' = calls w @ es \<and> list_all ?P es"
  proof (elim disjE exE conjE)
    fix e assume "r1 = Inl e" "w1 = w\<lparr>calls := calls w @ [(GetCardChecklists cardId, Some e)]\<rparr>"
    with run g have "calls w' = calls w @ [(GetCardChecklists cardId, Some e)]"
      by (auto simp: syncChecklistsWithTodoWrite_def tryCatch_def andThen_def succeed_def)
    then show ?thesis by simp
  next
    assume r1: "r1 = Inr ?cls" and w1: "w1 = w\<lparr>calls := calls w @ [(GetCardChecklists cardId, None)]\<rparr>"
    show ?thesis
    proof (cases "length ?cls = 0")
      case True
      with run g r1 w1 have "calls w' = calls w @ [(GetCardChecklists cardId, None)]"
        by (auto simp: syncChecklistsWithTodoWrite_def tryCatch_def andThen_def succeed_def)
      then show ?thesis by simp
    next
      case False
      obtain r2 w2 where l: "forEach ?cls (\<lambda>checklist.
          forEach tasks (syncChecklistItem cardId (itemsOf checklist))) w1 = (r2, w2)"
        by (cases "forEach ?cls (\<lambda>checklist.
          forEach tasks (syncChecklistItem cardId (itemsOf checklist))) w1")
      with run g r1 False have "w' = w2"
        by (cases r2) (auto simp: syncChecklistsWithTodoWrite_def tryCatch_def andThen_def
            succeed_def)
      moreover from loop l obtain es where "calls w2 = calls w1 @ es" "list_all ?P es"
        unfolding emits_def by blast
      ultimately have "calls w' = calls w @ ((GetCardChecklists cardId, None) # es) \<and>
          list_all ?P ((GetCardChecklists cardId, None) # es)"
        using w1 by simp
      then show ?thesis by blast
    qed
  qed
  then obtain es where es: "calls w' = calls w @ es" "list_all ?P es" by blast
  with mem have "(UpdateChecklistItem target itemId b, out) \<in> set es"
    by (simp add: newCalls_def)
  with es(2) have "?P (UpdateChecklistItem target itemId b, out)"
    unfolding list_all_iff by blast
  then show "target = cardId \<and> (\<exists>cl \<in> set ?cls. \<exists>t \<in> set tasks.
         writeFor findMatchingChecklistItem cl t = Some (itemId, b))"
    by blast
next
  let ?cls = "checklistsOf w cardId"
  let ?P = "\<lambda>x. \<forall>target itemId b out. x = (UpdateChecklistItem target itemId b, out) \<longrightarrow>
     (\<exists>cl \<in> set ?cls. \<exists>t \<in> set tasks.
         target = checklist_id cl \<and> writeFor findIncludedItem cl t = Some (itemId, b))"
  assume run: "syncTasksToChecklists cardId tasks w = (r, w')"
    and mem: "(UpdateChecklistItem target itemId b, out) \<in> set (newCalls w w')"
  have loop: "emits ?P (forEach ?cls (\<lambda>cl. forEach tasks (syncTaskToChecklist cl)))"
    by (intro emits_forEach, simp only: syncTaskToChecklist_writeFor)
       (auto split: option.splits intro!: emits_updateChecklistItem)
  have create: "emits ?P (andThen (createChecklist cardId nm (map content tasks))
      (\<lambda>created. succeed ()))" for nm
    by (intro emits_andThen emits_createChecklist) auto
  obtain r1 w1 where g: "getCardChecklists cardId w = (r1, w1)"
    by (cases "getCardChecklists cardId w")
  from getCardChecklists_cases [OF g]
  have "\<exists>es. calls w' = calls w @ es \<and> list_all ?P es"
  proof (elim disjE exE conjE)
    fix e assume "r1 = Inl e" "w1 = w\<lparr>calls := calls w @ [(GetCardChecklists cardId, Some e)]\<rparr>"
    with run g have "calls w' = calls w @ [(GetCardChecklists cardId, Some e)]"
      by (auto simp: syncTasksToChecklists_def tryCatch_def andThen_def succeed_def)
    then show ?thesis by simp
  next
    assume r1: "r1 = Inr ?cls" and w1: "w1 = w\<lparr>calls := calls w @ [(GetCardChecklists cardId, None)]\<rparr>"
    let ?rest = "if length ?cls = 0 then
            (if length tasks > 0 then
               andThen (createChecklist cardId (lit ''Development Tasks'') (map content tasks))
                 (\<lambda>created. succeed ())
             else succeed ())
          else forEach ?cls (\<lambda>cl. forEach tasks (syncTaskToChecklist cl))"
    have e: "emits ?P ?rest"
      by (rule emits_if; (rule emits_if)?; rule loop create emits_succeed)
    obtain r2 w2 where l: "?rest w1 = (r2, w2)" by (cases "?rest w1")
    with run g r1 have "w' = w2"
      by (cases r2) (auto simp: syncTasksToChecklists_def tryCatch_def andThen_def
          succeed_def)
    moreover from e l obtain es where "calls w2 = calls w1 @ es" "list_all ?P es"
      unfolding emits_def by blast
    ultimately have "calls w' = calls w @ ((GetCardChecklists cardId, None) # es) \<and>
        list_all ?P ((GetCardChecklists cardId, None) # es)"
      using w1 by simp
    then show ?thesis by blast
  qed
  then obtain es where es: "calls w' = calls w @ es" "list_all ?P es" by blast
  with mem have "(UpdateChecklistItem target itemId b, out) \<in> set es"
    by (simp add: newCalls_def)
  with es(2) have "?P (UpdateChecklistItem target itemId b, out)"
    unfolding list_all_iff by blast
  then show "\<exists>cl \<in> set ?cls. \<exists>t \<in> set tasks.
         target = checklist_id cl \<and> writeFor findIncludedItem cl t = Some (itemId, b)"
    by blast
qed

theorem checklist_writes_only_for_disagreeing_pairs_witness:
  "(UpdateChecklistItem (lit ''c1'') (lit ''i1'') False, None)
     \<in> set (newCalls
          (exampleWorld (Stored exampleSession)
             [checklist ''k1'' [checkItem ''i1'' ''foo'' ''complete'']] noFaults)
          (snd (syncChecklistsWithTodoWrite (lit ''c1'') [task ''foo bar'' ''pending'']
             (exampleWorld (Stored exampleSession)
                [checklist ''k1'' [checkItem ''i1'' ''foo'' ''complete'']] noFaults)))) \<and>
   writeFor findMatchingChecklistItem (checklist ''k1'' [checkItem ''i1'' ''foo'' ''complete''])
     (task ''foo bar'' ''pending'') = Some (lit ''i1'', False)"
proof -
  let ?w = "exampleWorld (Stored exampleSession)
     [checklist ''k1'' [checkItem ''i1'' ''foo'' ''complete'']] noFaults"
  let ?ts = "[task ''foo bar'' ''pending'']"
  have a: "(UpdateChecklistItem (lit ''c1'') (lit ''i1'') False, None)
     \<in> set (newCalls ?w (snd (syncChecklistsWithTodoWrite (lit ''c1'') ?ts ?w)))"
    by code_simp
  have b: "checklistsOf ?w (lit ''c1'') = [checklist ''k1'' [checkItem ''i1'' ''foo'' ''complete'']]"
    by code_simp
  have c: "syncChecklistsWithTodoWrite (lit ''c1'') ?ts ?w
     = (fst (syncChecklistsWithTodoWrite (lit ''c1'') ?ts ?w),
        snd (syncChecklistsWithTodoWrite (lit ''c1'') ?ts ?w))"
    by simp
  from checklist_writes_only_for_disagreeing_pairs
    [of "lit ''c1''" ?ts ?w "fst (syncChecklistsWithTodoWrite (lit ''c1'') ?ts ?w)"
        "snd (syncChecklistsWithTodoWrite (lit ''c1'') ?ts ?w)" "lit ''c1''" "lit ''i1''" False None]
    a c
  have "\<exists>cl \<in> set (checklistsOf ?w (lit ''c1'')). \<exists>t \<in> set ?ts.
         writeFor findMatchingChecklistItem cl t = Some (lit ''i1'', False)"
    by blast
  with a b show ?thesis by simp
qed

text \<open>
  C5, as the claim states it, fails in two ways. With two checklists, a task whose exact
  match lies in one checklist is matched by keyword against the items of the other: the
  item \<open>write tests\<close> ends incomplete although its task is completed, and \<open>write docs\<close> ends
  complete although its task is pending. With two tasks of the same normalized content and
  different status, the single item they match cannot agree with both: it ends complete
  although the task \<open>foo\<close> is pending.
\<close>

theorem checklist_convergence_fails:
  "list_all (\<lambda>t. length (filter (\<lambda>item. cleanTaskContent (item_name item) = cleanTaskContent (content t))
        (allItems [checklist ''k1'' [checkItem ''i1'' ''write tests'' ''complete''],
                   checklist ''k2'' [checkItem ''i2'' ''write docs'' ''incomplete'']])) = 1)
     [task ''write tests'' ''completed'', task ''write docs'' ''pending''] \<and>
   checklistsOf (snd (syncChecklistsWithTodoWrite (lit ''c1'')
        [task ''write tests'' ''completed'', task ''write docs'' ''pending'']
        (exampleWorld (Stored exampleSession)
           [checklist ''k1'' [checkItem ''i1'' ''write tests'' ''complete''],
            checklist ''k2'' [checkItem ''i2'' ''write docs'' ''incomplete'']] noFaults))) (lit ''c1'')
     = [checklist ''k1'' [checkItem ''i1'' ''write tests'' ''incomplete''],
        checklist ''k2'' [checkItem ''i2'' ''write docs'' ''complete'']] \<and>
   list_all (\<lambda>t. length (filter (\<lambda>item. cleanTaskContent (item_name item) = cleanTaskContent (content t))
        (allItems [checklist ''k1'' [checkItem ''i1'' ''foo'' ''incomplete'']])) = 1)
     [task ''Foo'' ''completed'', task ''foo'' ''pending''] \<and>
   checklistsOf (snd (syncChecklistsWithTodoWrite (lit ''c1'')
        [task ''Foo'' ''completed'', task ''foo'' ''pending'']
        (exampleWorld (Stored exampleSession)
           [checklist ''k1'' [checkItem ''i1'' ''foo'' ''incomplete'']] noFaults))) (lit ''c1'')
     = [checklist ''k1'' [checkItem ''i1'' ''foo'' ''complete'']]"
  by code_simp

text \<open>
  C5, amended, for one checklist of the card, whatever its other checklists hold. Take a card
  on the board whose item ids are distinct, its \<open>i\<close>-th checklist, and tasks such that no task
  has the normalized name of two items of this checklist as its normalized content, and such
  that a task which the matcher pairs with an item of this checklist (exactly, by
  containment or by keyword) agrees on being completed with every task whose normalized
  content equals the normalized name of that item. If no remote call fails, then after the
  checklist reconciliation every item of this checklist whose normalized name equals the
  normalized content of a task is complete exactly when that task's status is \<open>completed\<close>.
  By \<open>exactly_one_suffices\<close> the two conditions hold when every task has exactly one such item
  in this checklist, or is paired with none of its items, and tasks of the same normalized
  content agree on being completed.
\<close>

theorem checklist_convergence_per_checklist:
  assumes nf: "faultOf w = noFaults" and card: "findCard cardId w \<noteq> None"
    and i: "i < length (checklistsOf w cardId)"
    and ids: "distinct (map item_id (allItems (checklistsOf w cardId)))"
    and unique: "\<forall>t \<in> set tasks.
        length (filter (\<lambda>item. cleanTaskContent (item_name item) = cleanTaskContent (content t))
                  (itemsOf (checklistsOf w cardId ! i))) \<le> 1"
    and agree: "\<forall>t0 \<in> set tasks. \<forall>t \<in> set tasks. \<forall>e.
        findMatchingChecklistItem (itemsOf (checklistsOf w cardId ! i)) (content t0) = Some e \<and>
        cleanTaskContent (item_name e) = cleanTaskContent (content t) \<longrightarrow>
        (status t0 = lit ''completed'') = (status t = lit ''completed'')"
    and run: "syncChecklistsWithTodoWrite cardId tasks w = (r, w')"
  shows "\<forall>item \<in> set (itemsOf (checklistsOf w' cardId ! i)). \<forall>t \<in> set tasks.
           cleanTaskContent (item_name item) = cleanTaskContent (content t) \<longrightarrow>
           (item_state item = lit ''complete'') = (status t = lit ''completed'')"
proof (intro ballI impI)
  fix item' t
  let ?cls = "checklistsOf w cardId"
  let ?cl = "?cls ! i"
  let ?ws = "pendingWrites ?cls tasks"
  assume item': "item' \<in> set (itemsOf (checklistsOf w' cardId ! i))" and t: "t \<in> set tasks"
    and same: "cleanTaskContent (item_name item') = cleanTaskContent (content t)"
  from i have cl: "?cl \<in> set ?cls" by simp
  from syncChecklists_ok [OF nf card run] i
  have "itemsOf (checklistsOf w' cardId ! i)
      = map (\<lambda>item. item\<lparr>item_state := finalState ?ws item\<rparr>) (itemsOf ?cl)"
    by (simp add: itemsOf_applyWrites)
  with item' obtain item where item: "item \<in> set (itemsOf ?cl)"
    and eq: "item' = item\<lparr>item_state := finalState ?ws item\<rparr>" by auto
  from eq same have sameI: "cleanTaskContent (item_name item) = cleanTaskContent (content t)"
    by simp
  from cl item have itemA: "item \<in> set (allItems ?cls)" by (rule allItems_mem)
  \<comment> \<open>every write to the id of the item sets the state the task asks for\<close>
  have writes: "b = (status t = lit ''completed'')" if "(item_id item, b) \<in> set ?ws" for b
  proof -
    from pendingWrites_mem [OF that] obtain cl0 t0 where cl0: "cl0 \<in> set ?cls" and t0: "t0 \<in> set tasks"
      and wf: "writeFor findMatchingChecklistItem cl0 t0 = Some (item_id item, b)" by blast
    from wf obtain e where e: "findMatchingChecklistItem (itemsOf cl0) (content t0) = Some e"
        "item_id e = item_id item" "b = (status t0 = lit ''completed'')"
      by (auto simp: writeFor_def split: option.splits if_splits)
    from e(1) have e0: "e \<in> set (itemsOf cl0)" by (rule findMatchingChecklistItem_mem)
    with cl0 have "e \<in> set (allItems ?cls)" by (rule allItems_mem)
    with e(2) ids itemA have "e = item" by (auto simp: distinct_map dest: inj_onD)
    with e0 same_checklist [OF ids cl cl0 item] have "itemsOf cl0 = itemsOf ?cl" by simp
    with e(1) \<open>e = item\<close> have "findMatchingChecklistItem (itemsOf ?cl) (content t0) = Some item"
      by simp
    with sameI agree t t0
    have "(status t0 = lit ''completed'') = (status t = lit ''completed'')" by blast
    with e(3) show ?thesis by simp
  qed
  from finalState_cases [of ?ws item]
  have "(finalState ?ws item = lit ''complete'') = (status t = lit ''completed'')"
  proof (elim disjE conjE exE)
    fix b assume "(item_id item, b) \<in> set ?ws" "finalState ?ws item = stateOf b"
    with writes show ?thesis by simp
  next
    assume keep: "finalState ?ws item = item_state item"
      and none: "\<forall>b. (item_id item, b) \<notin> set ?ws"
    from exact_match_first [OF item sameI] obtain e where
      e: "findMatchingChecklistItem (itemsOf ?cl) (content t) = Some e" "e \<in> set (itemsOf ?cl)"
         "cleanTaskContent (item_name e) = cleanTaskContent (content t)" by blast
    from bspec [OF unique t] have "length (filter (\<lambda>item. cleanTaskContent (item_name item)
        = cleanTaskContent (content t)) (itemsOf ?cl)) \<le> 1" .
    from at_most_one [OF this e(2) e(3) item sameI] have "e = item" .
    have "writeFor findMatchingChecklistItem ?cl t = None"
    proof (cases "writeFor findMatchingChecklistItem ?cl t")
      case (Some p)
      with e \<open>e = item\<close> obtain b where "p = (item_id item, b)"
        by (auto simp: writeFor_def split: if_splits)
      with Some pendingWrites_intro [OF cl t] none show ?thesis by blast
    qed simp
    with e \<open>e = item\<close> keep show ?thesis
      by (auto simp: writeFor_def split: if_splits)
  qed
  with eq show "(item_state item' = lit ''complete'') = (status t = lit ''completed'')"
    by simp
qed

theorem checklist_convergence_per_checklist_witness:
  "faultOf (exampleWorld (Stored exampleSession)
      [checklist ''k1'' [checkItem ''i1'' ''Write tests'' ''incomplete''],
       checklist ''k2'' [checkItem ''i2'' ''Deploy app'' ''incomplete'']] noFaults) = noFaults \<and>
   findCard (lit ''c1'') (exampleWorld (Stored exampleSession)
      [checklist ''k1'' [checkItem ''i1'' ''Write tests'' ''incomplete''],
       checklist ''k2'' [checkItem ''i2'' ''Deploy app'' ''incomplete'']] noFaults) \<noteq> None \<and>
   distinct (map item_id (allItems
      [checklist ''k1'' [checkItem ''i1'' ''Write tests'' ''incomplete''],
       checklist ''k2'' [checkItem ''i2'' ''Deploy app'' ''incomplete'']])) \<and>
   length (filter (\<lambda>item. cleanTaskContent (item_name item)
                     = cleanTaskContent (content (task ''write tests'' ''completed'')))
      [checkItem ''i1'' ''Write tests'' ''incomplete'']) \<le> 1 \<and>
   length (filter (\<lambda>item. cleanTaskContent (item_name item)
                     = cleanTaskContent (content (task ''deploy app'' ''pending'')))
      [checkItem ''i1'' ''Write tests'' ''incomplete'']) \<le> 1 \<and>
   findMatchingChecklistItem [checkItem ''i1'' ''Write tests'' ''incomplete'']
      (content (task ''write tests'' ''completed''))
     = Some (checkItem ''i1'' ''Write tests'' ''incomplete'') \<and>
   findMatchingChecklistItem [checkItem ''i1'' ''Write tests'' ''incomplete'']
      (content (task ''deploy app'' ''pending'')) = None \<and>
   cleanTaskContent (item_name (checkItem ''i1'' ''Write tests'' ''incomplete''))
     \<noteq> cleanTaskContent (content (task ''deploy app'' ''pending'')) \<and>
   cleanTaskContent (item_name (checkItem ''i1'' ''Write tests'' ''complete''))
     = cleanTaskContent (content (task ''write tests'' ''completed'')) \<and>
   checkItem ''i1'' ''Write tests'' ''complete''
     \<in> set (itemsOf (checklistsOf (snd (syncChecklistsWithTodoWrite (lit ''c1'')
          [task ''write tests'' ''completed'', task ''deploy app'' ''pending'']
          (exampleWorld (Stored exampleSession)
             [checklist ''k1'' [checkItem ''i1'' ''Write tests'' ''incomplete''],
              checklist ''k2'' [checkItem ''i2'' ''Deploy app'' ''incomplete'']] noFaults)))
          (lit ''c1'') ! 0)) \<and>
   (item_state (checkItem ''i1'' ''Write tests'' ''complete'') = lit ''complete'')
     = (status (task ''write tests'' ''completed'') = lit ''completed'')"
proof -
  let ?i1 = "checkItem ''i1'' ''Write tests'' ''incomplete''"
  let ?items = "[?i1]"
  let ?cls = "[checklist ''k1'' ?items,
               checklist ''k2'' [checkItem ''i2'' ''Deploy app'' ''incomplete'']]"
  let ?w = "exampleWorld (Stored exampleSession) ?cls noFaults"
  let ?t = "task ''write tests'' ''completed''"
  let ?t2 = "task ''deploy app'' ''pending''"
  let ?run = "syncChecklistsWithTodoWrite (lit ''c1'') [?t, ?t2] ?w"
  let ?item = "checkItem ''i1'' ''Write tests'' ''complete''"
  have nf: "faultOf ?w = noFaults" by (simp add: exampleWorld_def)
  have card: "findCard (lit ''c1'') ?w \<noteq> None" by code_simp
  have cls: "checklistsOf ?w (lit ''c1'') = ?cls" by code_simp
  have items: "itemsOf (checklist ''k1'' ?items) = ?items" by code_simp
  have one: "length (filter (\<lambda>item. cleanTaskContent (item_name item)
                     = cleanTaskContent (content ?t)) ?items) \<le> 1" by code_simp
  have two: "length (filter (\<lambda>item. cleanTaskContent (item_name item)
                     = cleanTaskContent (content ?t2)) ?items) \<le> 1" by code_simp
  have m1: "findMatchingChecklistItem ?items (content ?t) = Some ?i1" by code_simp
  have m2: "findMatchingChecklistItem ?items (content ?t2) = None" by code_simp
  have differ: "cleanTaskContent (item_name ?i1) \<noteq> cleanTaskContent (content ?t2)" by code_simp
  have ids: "distinct (map item_id (allItems ?cls))" by code_simp
  have same: "cleanTaskContent (item_name ?item) = cleanTaskContent (content ?t)" by code_simp
  have after: "itemsOf (checklistsOf (snd ?run) (lit ''c1'') ! 0) = [?item]" by code_simp
  then have mem: "?item \<in> set (itemsOf (checklistsOf (snd ?run) (lit ''c1'') ! 0))" by simp
  have run: "?run = (fst ?run, snd ?run)" by simp
  have i: "0 < length (checklistsOf ?w (lit ''c1''))" by (simp add: cls)
  have u: "\<forall>t \<in> set [?t, ?t2].
        length (filter (\<lambda>item. cleanTaskContent (item_name item) = cleanTaskContent (content t))
                  (itemsOf (checklistsOf ?w (lit ''c1'') ! 0))) \<le> 1"
    using one two by (simp add: cls items)
  have ag: "\<forall>t0 \<in> set [?t, ?t2]. \<forall>t \<in> set [?t, ?t2]. \<forall>e.
        findMatchingChecklistItem (itemsOf (checklistsOf ?w (lit ''c1'') ! 0)) (content t0) = Some e \<and>
        cleanTaskContent (item_name e) = cleanTaskContent (content t) \<longrightarrow>
        (status t0 = lit ''completed'') = (status t = lit ''completed'')"
    using differ by (auto simp: cls items m1 m2)
  have ids': "distinct (map item_id (allItems (checklistsOf ?w (lit ''c1''))))"
    using ids by (simp add: cls)
  from checklist_convergence_per_checklist [OF nf card i ids' u ag run] mem same
  have "(item_state ?item = lit ''complete'') = (status ?t = lit ''completed'')" by simp
  with nf card ids one two m1 m2 differ same mem show ?thesis by blast
qed

subsection \<open>Public operations\<close>




end
